theory Spec2Isabelle
  imports
    Complex_Main
    "HOL-Library.Char_ord"
    "HOL-Library.List_Lexorder"
    "HOL-Library.Product_Lexorder"
    "HOL-Library.Multiset"
begin

section \<open>Python values\<close>

text \<open>
  The program of \<^verbatim>\<open>Additionnals/python_stat_compiler.py\<close> works on the values that
  \<^verbatim>\<open>json.load\<close> returns: \<^verbatim>\<open>None\<close>, booleans, integers (unbounded), floats, strings, lists
  and dictionaries with string keys. A dictionary is an association list in insertion
  order; a Python dictionary has each key once, and lookup takes the entry of the key.

  A float is modelled by the rational number it denotes; \<^verbatim>\<open>nan\<close> and the infinities are
  outside the model. In \<^verbatim>\<open>derive\<close> float arithmetic is exact (no rounding to 53 bits): on
  the integers below \<open>2^53\<close> in magnitude and their quotients by powers of two the model
  and IEEE doubles coincide. In \<^verbatim>\<open>fmt_bytes\<close> an integer becomes a double by rounding to
  53 significant bits, as the interpreter does, and raises \<^verbatim>\<open>OverflowError\<close> beyond the
  range of a double; the divisions by 1024 that follow are exact on doubles.
\<close>

datatype pyval =
    PNone
  | PBool bool
  | PInt int
  | PFloat rat
  | PStr string
  | PList "pyval list"
  | PDict "(string \<times> pyval) list"

datatype py_error = AttributeError | TypeError | ValueError | OverflowError

text \<open>
  The conversions of a string by \<^verbatim>\<open>int(s)\<close> and \<^verbatim>\<open>float(s)\<close> and the \<^verbatim>\<open>repr\<close> of a float
  are builtins of the interpreter: the model takes them as parameters. \<open>None\<close> from a
  conversion is Python's \<^verbatim>\<open>ValueError\<close>.
\<close>

record builtins =
  int_of_str :: "string \<Rightarrow> int option"
  float_of_str :: "string \<Rightarrow> rat option"
  repr_float :: "rat \<Rightarrow> string"

definition ebind :: "py_error + 'a \<Rightarrow> ('a \<Rightarrow> py_error + 'b) \<Rightarrow> py_error + 'b" where
  "ebind x f = (case x of Inl e \<Rightarrow> Inl e | Inr v \<Rightarrow> f v)"

fun emap :: "('a \<Rightarrow> py_error + 'b) \<Rightarrow> 'a list \<Rightarrow> py_error + 'b list" where
  "emap f [] = Inr []"
| "emap f (x # xs) = ebind (f x) (\<lambda>y. ebind (emap f xs) (\<lambda>ys. Inr (y # ys)))"

subsection \<open>Decimal output\<close>

fun str_nat :: "nat \<Rightarrow> string" where
  "str_nat n =
     (if n < 10 then [''0123456789'' ! n]
      else str_nat (n div 10) @ [''0123456789'' ! (n mod 10)])"

definition str_int :: "int \<Rightarrow> string" where
  "str_int i = (if i < 0 then ''-'' @ str_nat (nat (- i)) else str_nat (nat i))"

text \<open>Rounding of a non-negative rational to the nearest integer, ties to the even one.\<close>

definition round_half_even :: "rat \<Rightarrow> nat" where
  "round_half_even y =
     (let f = \<lfloor>y\<rfloor>; d = y - of_int f
      in nat (if d < 1 / 2 then f else if 1 / 2 < d then f + 1
              else if even f then f else f + 1))"

fun zero_pad :: "nat \<Rightarrow> string \<Rightarrow> string" where
  "zero_pad w s = replicate (w - length s) (CHR ''0'') @ s"

text \<open>
  \<^verbatim>\<open>f"{x:.df}"\<close>: the sign (also of a negative value that rounds to zero), the integer
  part, and \<open>d\<close> decimals when \<open>d > 0\<close>; the exact value is rounded half to even.
\<close>

definition fmt_fixed :: "nat \<Rightarrow> rat \<Rightarrow> string" where
  "fmt_fixed d x =
     (let q = round_half_even (\<bar>x\<bar> * 10 ^ d)
      in (if x < 0 then ''-'' else '''') @ str_nat (q div 10 ^ d)
         @ (if d = 0 then '''' else ''.'' @ zero_pad d (str_nat (q mod 10 ^ d))))"

subsection \<open>Integers as doubles\<close>

text \<open>
  An integer converts to a float when the nearest double is finite, that is below
  \<open>2^1024 - 2^970\<close> in magnitude; beyond, Python raises \<^verbatim>\<open>OverflowError\<close>.
\<close>

definition float_limit :: int where
  "float_limit = 2 ^ 1024 - 2 ^ 970"

fun bit_length :: "nat \<Rightarrow> nat" where
  "bit_length n = (if n = 0 then 0 else Suc (bit_length (n div 2)))"

text \<open>
  The integer nearest to \<open>n\<close> among those with at most 53 significant bits, ties to the
  even one: the value of the double that \<^verbatim>\<open>float(n)\<close> gives.
\<close>

definition round53 :: "int \<Rightarrow> int" where
  "round53 n =
     (let l = bit_length (nat \<bar>n\<bar>)
      in if l \<le> 53 then n
         else (let u = 2 ^ (l - 53)
               in sgn n * int (round_half_even (of_int \<bar>n\<bar> / of_int u)) * u))"

text \<open>The running value \<^verbatim>\<open>n\<close> of \<^verbatim>\<open>fmt_bytes\<close>: an integer at first, a float after a division.\<close>

datatype pynum = NInt int | NFloat rat

fun lt_1024 :: "pynum \<Rightarrow> bool" where
  "lt_1024 (NInt i) = (i < 1024)"
| "lt_1024 (NFloat x) = (x < 1024)"

text \<open>
  \<^verbatim>\<open>n / 1024\<close>. On an integer the quotient is rounded once, to the nearest double, and
  Python raises \<^verbatim>\<open>OverflowError\<close> when that double would not be finite; on a float (here at
  least 1) the division by a power of two is exact.
\<close>

fun truediv_1024 :: "pynum \<Rightarrow> py_error + rat" where
  "truediv_1024 (NInt i) =
     (if \<bar>i\<bar> < 1024 * float_limit then Inr (of_int (round53 i) / 1024) else Inl OverflowError)"
| "truediv_1024 (NFloat x) = Inr (x / 1024)"

text \<open>\<^verbatim>\<open>f"{n:.df}"\<close>: an integer is converted to a float first.\<close>

fun fmt_f :: "nat \<Rightarrow> pynum \<Rightarrow> py_error + string" where
  "fmt_f d (NInt i) =
     (if \<bar>i\<bar> < float_limit then Inr (fmt_fixed d (of_int (round53 i))) else Inl OverflowError)"
| "fmt_f d (NFloat x) = Inr (fmt_fixed d x)"

section \<open>fmt_bytes\<close>

text \<open>
  The loop over the four units. \<^verbatim>\<open>n /= 1024\<close> at the end of a round divides the running
  value; the \<^verbatim>\<open>return\<close> of a unit other than B formats \<^verbatim>\<open>n/1024\<close>, the running value
  divided once more. A loop that ends without a \<^verbatim>\<open>return\<close> gives \<^verbatim>\<open>None\<close>.
\<close>

fun fmt_bytes_loop :: "pynum \<Rightarrow> string list \<Rightarrow> py_error + string option" where
  "fmt_bytes_loop n [] = Inr None"
| "fmt_bytes_loop n (unit # units) =
     (if lt_1024 n \<or> unit = ''GiB'' then
        (if unit = ''B'' then ebind (fmt_f 0 n) (\<lambda>s. Inr (Some (s @ '' '' @ unit)))
         else ebind (truediv_1024 n) (\<lambda>q. Inr (Some (fmt_fixed 1 q @ '' '' @ unit))))
      else ebind (truediv_1024 n) (\<lambda>q. fmt_bytes_loop (NFloat q) units))"

definition fmt_bytes :: "int \<Rightarrow> py_error + string option" where
  "fmt_bytes n = fmt_bytes_loop (NInt n) [''B'', ''KiB'', ''MiB'', ''GiB'']"

section \<open>Coercions and dictionary access\<close>

text \<open>\<^verbatim>\<open>bool(v)\<close>, and \<^verbatim>\<open>a or b\<close>, which gives \<open>a\<close> when it is true and \<open>b\<close> otherwise.\<close>

fun truthy :: "pyval \<Rightarrow> bool" where
  "truthy PNone = False"
| "truthy (PBool b) = b"
| "truthy (PInt i) = (i \<noteq> 0)"
| "truthy (PFloat x) = (x \<noteq> 0)"
| "truthy (PStr s) = (s \<noteq> [])"
| "truthy (PList xs) = (xs \<noteq> [])"
| "truthy (PDict kvs) = (kvs \<noteq> [])"

definition py_or :: "pyval \<Rightarrow> pyval \<Rightarrow> pyval" where
  "py_or a b = (if truthy a then a else b)"

text \<open>\<^verbatim>\<open>int(v)\<close>: a float is truncated towards zero.\<close>

fun py_int :: "builtins \<Rightarrow> pyval \<Rightarrow> py_error + int" where
  "py_int B PNone = Inl TypeError"
| "py_int B (PBool b) = Inr (if b then 1 else 0)"
| "py_int B (PInt i) = Inr i"
| "py_int B (PFloat x) = Inr (if 0 \<le> x then \<lfloor>x\<rfloor> else \<lceil>x\<rceil>)"
| "py_int B (PStr s) = (case int_of_str B s of None \<Rightarrow> Inl ValueError | Some i \<Rightarrow> Inr i)"
| "py_int B (PList xs) = Inl TypeError"
| "py_int B (PDict kvs) = Inl TypeError"

text \<open>
  \<^verbatim>\<open>float(i)\<close> in \<^verbatim>\<open>derive\<close>: the integer itself within the range of a double, and
  \<^verbatim>\<open>OverflowError\<close> beyond.
\<close>

definition float_of_int :: "int \<Rightarrow> py_error + rat" where
  "float_of_int i = (if \<bar>i\<bar> < float_limit then Inr (of_int i) else Inl OverflowError)"

text \<open>\<^verbatim>\<open>float(v)\<close>.\<close>

fun py_float :: "builtins \<Rightarrow> pyval \<Rightarrow> py_error + rat" where
  "py_float B PNone = Inl TypeError"
| "py_float B (PBool b) = Inr (if b then 1 else 0)"
| "py_float B (PInt i) = float_of_int i"
| "py_float B (PFloat x) = Inr x"
| "py_float B (PStr s) = (case float_of_str B s of None \<Rightarrow> Inl ValueError | Some x \<Rightarrow> Inr x)"
| "py_float B (PList xs) = Inl TypeError"
| "py_float B (PDict kvs) = Inl TypeError"

text \<open>
  \<^verbatim>\<open>a + b\<close> on numbers, as \<^verbatim>\<open>sum\<close> uses it from the start value \<open>0\<close>: booleans count
  as integers, an integer meeting a float is converted first, anything else is a
  \<^verbatim>\<open>TypeError\<close>.
\<close>

fun py_add :: "pyval \<Rightarrow> pyval \<Rightarrow> py_error + pyval" where
  "py_add (PInt a) (PInt b) = Inr (PInt (a + b))"
| "py_add (PInt a) (PBool b) = Inr (PInt (a + (if b then 1 else 0)))"
| "py_add (PInt a) (PFloat y) = ebind (float_of_int a) (\<lambda>x. Inr (PFloat (x + y)))"
| "py_add (PFloat x) (PInt b) = ebind (float_of_int b) (\<lambda>y. Inr (PFloat (x + y)))"
| "py_add (PFloat x) (PBool b) = Inr (PFloat (x + (if b then 1 else 0)))"
| "py_add (PFloat x) (PFloat y) = Inr (PFloat (x + y))"
| "py_add a b = Inl TypeError"

fun py_sum_from :: "pyval \<Rightarrow> pyval list \<Rightarrow> py_error + pyval" where
  "py_sum_from acc [] = Inr acc"
| "py_sum_from acc (v # vs) = ebind (py_add acc v) (\<lambda>acc'. py_sum_from acc' vs)"

definition py_sum :: "pyval list \<Rightarrow> py_error + pyval" where
  "py_sum vs = py_sum_from (PInt 0) vs"

text \<open>\<^verbatim>\<open>d.get(k, default)\<close>, \<^verbatim>\<open>d.values()\<close> and \<^verbatim>\<open>d.items()\<close>; only a dictionary has them.\<close>

fun dict_get :: "pyval \<Rightarrow> string \<Rightarrow> pyval \<Rightarrow> py_error + pyval" where
  "dict_get (PDict kvs) k dflt = Inr (case map_of kvs k of None \<Rightarrow> dflt | Some v \<Rightarrow> v)"
| "dict_get d k dflt = Inl AttributeError"

fun dict_items :: "pyval \<Rightarrow> py_error + (string \<times> pyval) list" where
  "dict_items (PDict kvs) = Inr kvs"
| "dict_items d = Inl AttributeError"

definition dict_values :: "pyval \<Rightarrow> py_error + pyval list" where
  "dict_values d = ebind (dict_items d) (\<lambda>kvs. Inr (map snd kvs))"

definition startswith :: "string \<Rightarrow> string \<Rightarrow> bool" where
  "startswith s p = (take (length p) s = p)"

section \<open>get_opt and derive\<close>

fun get_opt :: "pyval \<Rightarrow> pyval \<Rightarrow> string \<Rightarrow> py_error + pyval" where
  "get_opt (PDict okvs) row key =
     (case map_of okvs key of Some v \<Rightarrow> Inr v | None \<Rightarrow> dict_get row key (PInt 0))"
| "get_opt opts row key = dict_get row key (PInt 0)"

record metric =
  Ncols :: int
  ell :: int
  ellp :: int
  rho :: int
  eta :: int
  theta :: int
  ok_lin :: bool
  ok_eq4 :: bool
  ok_sum :: bool
  ok_all :: bool
  t_total_ms :: rat
  t_norm_ms :: rat
  size_fpar_core :: int
  size_fpar_norm :: int
  size_fpar_total :: int
  size_witness_norm :: int
  size_witness_total :: int
  size_total_bytes :: int

text \<open>
  The statements of \<^verbatim>\<open>derive\<close> in their order, so that the first exception of the source
  is the error of the model. The \<^verbatim>\<open>int(...)\<close> around the size sums at the end acts on
  integers and changes nothing.
\<close>

definition derive :: "builtins \<Rightarrow> pyval \<Rightarrow> py_error + metric" where
  "derive B row =
     ebind (dict_get row ''Opts'' (PDict [])) (\<lambda>opts.
     ebind (get_opt opts row ''NCols'') (\<lambda>ncols.
     ebind (get_opt opts row ''Ell'') (\<lambda>ell_v.
     ebind (get_opt opts row ''EllPrime'') (\<lambda>ellp_v.
     ebind (get_opt opts row ''Rho'') (\<lambda>rho_v.
     ebind (get_opt opts row ''Eta'') (\<lambda>eta_v.
     ebind (get_opt opts row ''Theta'') (\<lambda>theta_v.
     ebind (dict_get row ''Verdict'' (PDict [])) (\<lambda>verdict0.
     let verdict = py_or verdict0 (PDict []) in
     ebind (dict_get verdict ''OkLin'' (PBool False)) (\<lambda>lin_v.
     ebind (dict_get verdict ''OkEq4'' (PBool False)) (\<lambda>eq4_v.
     ebind (dict_get verdict ''OkSum'' (PBool False)) (\<lambda>sum_v.
     let ok_lin_b = truthy lin_v; ok_eq4_b = truthy eq4_v; ok_sum_b = truthy sum_v;
         ok_all_b = (ok_lin_b \<and> ok_eq4_b \<and> ok_sum_b) in
     ebind (dict_get row ''TimingsUS'' (PDict [])) (\<lambda>times0.
     let times = py_or times0 (PDict []) in
     ebind (dict_get times ''__total__'' PNone) (\<lambda>total0.
     ebind (if total0 = PNone then ebind (dict_values times) py_sum else Inr total0) (\<lambda>total_us.
     ebind (dict_get times ''buildFparLinfChain'' (PFloat 0)) (\<lambda>norm_v.
     ebind (py_float B norm_v) (\<lambda>t_norm.
     ebind (dict_get row ''SizesB'' (PDict [])) (\<lambda>sizes0.
     let sizes = py_or sizes0 (PDict []) in
     ebind (dict_values sizes) (\<lambda>vals.
     ebind (emap (py_int B) vals) (\<lambda>all_ints.
     let size_total = sum_list all_ints in
     ebind (dict_items sizes) (\<lambda>items.
     ebind (emap (py_int B) (map snd (filter (\<lambda>(k, v). startswith k ''piop/Fpar/'') items))) (\<lambda>fpar_ints.
     let fpar_total = sum_list fpar_ints in
     ebind (dict_get sizes ''piop/Fpar/core'' (PInt 0)) (\<lambda>core_v.
     ebind (py_int B core_v) (\<lambda>fpar_core.
     ebind (dict_get sizes ''piop/Fpar/linf_chain'' (PInt 0)) (\<lambda>fnorm_v.
     ebind (py_int B fnorm_v) (\<lambda>fpar_norm.
     ebind (emap (py_int B) (map snd (filter (\<lambda>(k, v). startswith k ''piop/witness/'') items))) (\<lambda>wit_ints.
     let witness_total = sum_list wit_ints in
     ebind (dict_get sizes ''piop/witness/linf_chain/M'' (PInt 0)) (\<lambda>m_v.
     ebind (py_int B m_v) (\<lambda>wit_m.
     ebind (dict_get sizes ''piop/witness/linf_chain/D'' (PInt 0)) (\<lambda>d_v.
     ebind (py_int B d_v) (\<lambda>wit_d.
     let witness_norm = wit_m + wit_d in
     ebind (py_int B ncols) (\<lambda>ncols_i.
     ebind (py_int B ell_v) (\<lambda>ell_i.
     ebind (py_int B ellp_v) (\<lambda>ellp_i.
     ebind (py_int B rho_v) (\<lambda>rho_i.
     ebind (py_int B eta_v) (\<lambda>eta_i.
     ebind (py_int B theta_v) (\<lambda>theta_i.
     ebind (py_float B total_us) (\<lambda>total_f.
     Inr \<lparr> Ncols = ncols_i, ell = ell_i, ellp = ellp_i, rho = rho_i, eta = eta_i,
           theta = theta_i, ok_lin = ok_lin_b, ok_eq4 = ok_eq4_b, ok_sum = ok_sum_b,
           ok_all = ok_all_b, t_total_ms = total_f / 1000, t_norm_ms = t_norm / 1000,
           size_fpar_core = fpar_core, size_fpar_norm = fpar_norm,
           size_fpar_total = fpar_total, size_witness_norm = witness_norm,
           size_witness_total = witness_total, size_total_bytes = size_total \<rparr>
     )))))))))))))))))))))))))))))))))))))"

section \<open>The renderers\<close>

text \<open>
  Both renderers sort with \<^verbatim>\<open>sorted(rows, key=lambda r: (r["Ncols"], r["ell"], r["ellp"],
  r["rho"], r["eta"], r["theta"]))\<close>. Python compares tuples lexicographically and its sort
  is stable; on the nested pairs of \<open>Product_Lexorder\<close> the order is the same, and
  \<open>sort_key\<close> is a stable sort.
\<close>

definition row_key :: "metric \<Rightarrow> int \<times> int \<times> int \<times> int \<times> int \<times> int" where
  "row_key r = (Ncols r, ell r, ellp r, rho r, eta r, theta r)"

definition rows_sorted :: "metric list \<Rightarrow> metric list" where
  "rows_sorted rows = sort_key row_key rows"

fun join :: "string \<Rightarrow> string list \<Rightarrow> string" where
  "join sep [] = []"
| "join sep [x] = x"
| "join sep (x # y # ys) = x @ sep @ join sep (y # ys)"

text \<open>
  What the program leaves behind: the lines printed to standard output and to the error
  stream, and the files written, in order, each with its whole content. Opening an
  output path for writing is taken to succeed.
\<close>

record world =
  out :: "string list"
  err :: "string list"
  files :: "(string \<times> string) list"

definition md_hdr :: "string list" where
  "md_hdr = [''Ncols'', ''ell'', ''ellp'', ''rho'', ''eta'', ''theta'',
             ''OK'', ''t_total(ms)'', ''t_norm(ms)'',
             ''Fpar(core)'', ''Fpar(norm)'', ''Fpar(total)'',
             ''Wit(norm)'', ''Wit(total)'', ''All(sizes)'']"

text \<open>The check mark U+2714 and the cross U+2718, as their UTF-8 bytes.\<close>

definition ok_glyph :: "bool \<Rightarrow> string" where
  "ok_glyph b = (if b then [CHR 0xE2, CHR 0x9C, CHR 0x94] else [CHR 0xE2, CHR 0x9C, CHR 0x98])"

text \<open>
  One size cell: an exception of \<^verbatim>\<open>fmt_bytes\<close> goes up; a cell that \<^verbatim>\<open>fmt_bytes\<close> left as
  \<^verbatim>\<open>None\<close> would make \<^verbatim>\<open>" | ".join(rec)\<close> raise.
\<close>

definition bytes_cell :: "int \<Rightarrow> py_error + string" where
  "bytes_cell n =
     ebind (fmt_bytes n) (\<lambda>cell. case cell of None \<Rightarrow> Inl TypeError | Some s \<Rightarrow> Inr s)"

definition md_line :: "metric \<Rightarrow> py_error + string" where
  "md_line r =
     ebind (emap bytes_cell [size_fpar_core r, size_fpar_norm r, size_fpar_total r,
                             size_witness_norm r, size_witness_total r, size_total_bytes r])
       (\<lambda>cells.
          Inr (''| '' @ join '' | ''
                 ([str_int (Ncols r), str_int (ell r), str_int (ellp r), str_int (rho r),
                   str_int (eta r), str_int (theta r), ok_glyph (ok_all r),
                   fmt_fixed 0 (t_total_ms r), fmt_fixed 0 (t_norm_ms r)] @ cells)
               @ '' |''))"

definition write_markdown :: "metric list \<Rightarrow> string \<Rightarrow> world \<Rightarrow> py_error + world" where
  "write_markdown rows out_path w =
     ebind (emap md_line (rows_sorted rows)) (\<lambda>data_lines.
       let lines = (''| '' @ join '' | '' md_hdr @ '' |'')
                   # (''|'' @ join ''|'' (replicate (length md_hdr) ''---'') @ ''|'')
                   # data_lines
       in Inr (w\<lparr> files := files w @ [(out_path, join [CHR 0x0A] lines)],
                  out := out w @ [''[ok] wrote '' @ out_path] \<rparr>))"

definition csv_hdr :: "string list" where
  "csv_hdr = [''Ncols'', ''ell'', ''ellp'', ''rho'', ''eta'', ''theta'',
              ''ok_lin'', ''ok_eq4'', ''ok_sum'', ''ok_all'',
              ''t_total_ms'', ''t_norm_ms'',
              ''size_fpar_core'', ''size_fpar_norm'', ''size_fpar_total'',
              ''size_witness_norm'', ''size_witness_total'', ''size_total_bytes'']"

definition str_bool :: "bool \<Rightarrow> string" where
  "str_bool b = (if b then ''True'' else ''False'')"

text \<open>
  The cells of one record in the order of the header, as \<^verbatim>\<open>csv.writer\<close> prints them: an
  integer in decimal, a boolean as \<^verbatim>\<open>True\<close> or \<^verbatim>\<open>False\<close>, a float by its \<^verbatim>\<open>repr\<close>. None of
  them needs quoting; a row ends with carriage return and line feed.
\<close>

definition csv_rec :: "builtins \<Rightarrow> metric \<Rightarrow> string list" where
  "csv_rec B r =
     [str_int (Ncols r), str_int (ell r), str_int (ellp r), str_int (rho r),
      str_int (eta r), str_int (theta r),
      str_bool (ok_lin r), str_bool (ok_eq4 r), str_bool (ok_sum r), str_bool (ok_all r),
      repr_float B (t_total_ms r), repr_float B (t_norm_ms r),
      str_int (size_fpar_core r), str_int (size_fpar_norm r), str_int (size_fpar_total r),
      str_int (size_witness_norm r), str_int (size_witness_total r),
      str_int (size_total_bytes r)]"

definition csv_line :: "string list \<Rightarrow> string" where
  "csv_line cells = join '','' cells @ [CHR 0x0D, CHR 0x0A]"

definition write_csv :: "builtins \<Rightarrow> metric list \<Rightarrow> string \<Rightarrow> world \<Rightarrow> world" where
  "write_csv B rows out_path w =
     w\<lparr> files := files w
          @ [(out_path, concat (map csv_line (csv_hdr # map (csv_rec B) (rows_sorted rows))))],
        out := out w @ [''[ok] wrote '' @ out_path] \<rparr>"

section \<open>load_rows and main\<close>

text \<open>
  The file system as the loader sees it: the paths that \<^verbatim>\<open>glob.glob\<close> returns for
  \<^verbatim>\<open>*.json\<close> in a directory, in the order of the file system, and for a path what
  \<^verbatim>\<open>open\<close> and \<^verbatim>\<open>json.load\<close> give: the parsed value, or an exception with its message.
\<close>

datatype read_result = Failed string | Loaded pyval

record env =
  glob_json :: "string \<Rightarrow> string list"
  json_load :: "string \<Rightarrow> read_result"

text \<open>The loop of \<^verbatim>\<open>load_rows\<close>; the state is the list \<^verbatim>\<open>rows\<close> and the error stream.\<close>

fun load_loop :: "env \<Rightarrow> string list \<Rightarrow> pyval list \<times> string list \<Rightarrow> pyval list \<times> string list" where
  "load_loop E [] st = st"
| "load_loop E (path # paths) (rows, errs) =
     (case json_load E path of
        Failed e \<Rightarrow>
          load_loop E paths (rows, errs @ [''[warn] failed to parse '' @ path @ '': '' @ e])
      | Loaded data0 \<Rightarrow>
          (let data = (case data0 of PDict kvs \<Rightarrow> PList [data0] | _ \<Rightarrow> data0)
           in case data of
                PList xs \<Rightarrow> load_loop E paths (rows @ xs, errs)
              | _ \<Rightarrow> load_loop E paths
                      (rows, errs @ [''[warn] '' @ path
                                     @ '' ignored: top-level JSON is not a list/dict''])))"

definition load_rows :: "env \<Rightarrow> string \<Rightarrow> pyval list \<times> string list" where
  "load_rows E input_dir = load_loop E (sort (glob_json E input_dir)) ([], [])"

record args =
  inp :: string
  md :: string
  csv :: string

text \<open>
  How the process ends: \<^verbatim>\<open>sys.exit(n)\<close> or the end of \<^verbatim>\<open>main\<close> (status 0), or an exception
  that nothing catches, after which the interpreter prints a traceback and the status
  is 1.
\<close>

datatype outcome = Exit nat | Uncaught py_error

fun exit_status :: "outcome \<Rightarrow> nat" where
  "exit_status (Exit n) = n"
| "exit_status (Uncaught e) = 1"

definition main :: "builtins \<Rightarrow> env \<Rightarrow> args \<Rightarrow> outcome \<times> world" where
  "main B E a =
     (let (rows_raw, warns) = load_rows E (inp a);
          w0 = \<lparr> out = [], err = warns, files = [] \<rparr>
      in if rows_raw = [] then
           (Exit 1, w0\<lparr> err := err w0 @ [''[err] no JSON files found in '' @ inp a] \<rparr>)
         else
           (case emap (derive B) rows_raw of
              Inl e \<Rightarrow> (Uncaught e, w0)
            | Inr derived \<Rightarrow>
                (case write_markdown derived (md a) w0 of
                   Inl e \<Rightarrow> (Uncaught e, w0)
                 | Inr w1 \<Rightarrow> (Exit 0, write_csv B derived (csv a) w1))))"

section \<open>Reference definitions for the statements\<close>

text \<open>The record of the example scenario of the specification, and what it derives to.\<close>

definition example_fields :: "(string \<times> pyval) list" where
  "example_fields =
     [(''Opts'', PDict [(''NCols'', PInt 4), (''Ell'', PInt 2), (''EllPrime'', PInt 1),
                        (''Rho'', PInt 3), (''Eta'', PInt 1), (''Theta'', PInt 1)]),
      (''Verdict'', PDict [(''OkLin'', PBool True), (''OkEq4'', PBool True),
                           (''OkSum'', PBool True)]),
      (''TimingsUS'', PDict [(''buildFparLinfChain'', PInt 2000), (''other'', PInt 500)]),
      (''SizesB'', PDict [(''piop/Fpar/core'', PInt 100), (''piop/Fpar/linf_chain'', PInt 50),
                          (''piop/witness/linf_chain/M'', PInt 10),
                          (''piop/witness/linf_chain/D'', PInt 5)])]"

definition example_row :: pyval where
  "example_row = PDict example_fields"

definition example_metric :: metric where
  "example_metric =
     \<lparr> Ncols = 4, ell = 2, ellp = 1, rho = 3, eta = 1, theta = 1,
       ok_lin = True, ok_eq4 = True, ok_sum = True, ok_all = True,
       t_total_ms = 5 / 2, t_norm_ms = 2,
       size_fpar_core = 100, size_fpar_norm = 50, size_fpar_total = 150,
       size_witness_norm = 15, size_witness_total = 15, size_total_bytes = 165 \<rparr>"

definition zero_metric :: metric where
  "zero_metric =
     \<lparr> Ncols = 0, ell = 0, ellp = 0, rho = 0, eta = 0, theta = 0,
       ok_lin = False, ok_eq4 = False, ok_sum = False, ok_all = False,
       t_total_ms = 0, t_norm_ms = 0,
       size_fpar_core = 0, size_fpar_norm = 0, size_fpar_total = 0,
       size_witness_norm = 0, size_witness_total = 0, size_total_bytes = 0 \<rparr>"

text \<open>
  A record with an aggregate key in its timings, one with a parameter both inside
  \<^verbatim>\<open>Opts\<close> and at top level, and builtins that accept no string.
\<close>

definition aggregate_fields :: "(string \<times> pyval) list" where
  "aggregate_fields =
     [(''TimingsUS'', PDict [(''__total__'', PInt 7000), (''buildFparLinfChain'', PFloat (1 / 2)),
                             (''other'', PInt 1)])]"

definition shadowed_fields :: "(string \<times> pyval) list" where
  "shadowed_fields = [(''Opts'', PDict [(''NCols'', PInt 4)]), (''NCols'', PInt 9), (''Rho'', PInt 5)]"

definition plain_builtins :: builtins where
  "plain_builtins =
     \<lparr> int_of_str = (\<lambda>s. None), float_of_str = (\<lambda>s. None), repr_float = (\<lambda>x. ''0.0'') \<rparr>"

text \<open>
  The parameter resolution in the words of the specification: the value under \<^verbatim>\<open>Opts\<close>
  when \<^verbatim>\<open>Opts\<close> is a mapping with the key, else the top-level field of that name, else
  zero.
\<close>

definition top_level :: "(string \<times> pyval) list \<Rightarrow> string \<Rightarrow> pyval" where
  "top_level r name = (case map_of r name of Some v \<Rightarrow> v | None \<Rightarrow> PInt 0)"

definition param_spec :: "(string \<times> pyval) list \<Rightarrow> string \<Rightarrow> pyval" where
  "param_spec r name =
     (case map_of r ''Opts'' of
        Some (PDict okvs) \<Rightarrow> (case map_of okvs name of Some v \<Rightarrow> v | None \<Rightarrow> top_level r name)
      | _ \<Rightarrow> top_level r name)"

definition param_names :: "string list" where
  "param_names = [''NCols'', ''Ell'', ''EllPrime'', ''Rho'', ''Eta'', ''Theta'']"

text \<open>
  The entries of a group of a record: those of the mapping under the group's name, none
  when the group is absent (or holds no mapping).
\<close>

definition the_group :: "(string \<times> pyval) list \<Rightarrow> string \<Rightarrow> (string \<times> pyval) list" where
  "the_group r g = (case map_of r g of Some (PDict kvs) \<Rightarrow> kvs | _ \<Rightarrow> [])"

text \<open>The number a numeric value denotes; the values a sum accepts and those it returns.\<close>

fun num_rat :: "pyval \<Rightarrow> rat" where
  "num_rat (PBool b) = (if b then 1 else 0)"
| "num_rat (PInt i) = of_int i"
| "num_rat (PFloat x) = x"
| "num_rat v = 0"

fun is_num :: "pyval \<Rightarrow> bool" where
  "is_num (PBool b) = True"
| "is_num (PInt i) = True"
| "is_num (PFloat x) = True"
| "is_num v = False"

fun is_acc :: "pyval \<Rightarrow> bool" where
  "is_acc (PInt i) = True"
| "is_acc (PFloat x) = True"
| "is_acc v = False"

text \<open>
  The sizes mapping with each value coerced to an integer, the entry of a key (zero when
  absent) and the sum of the entries whose key starts with a prefix.
\<close>

definition coerce_sizes :: "builtins \<Rightarrow> (string \<times> pyval) list \<Rightarrow> py_error + (string \<times> int) list" where
  "coerce_sizes B ss = emap (\<lambda>(k, v). ebind (py_int B v) (\<lambda>i. Inr (k, i))) ss"

definition entry :: "(string \<times> int) list \<Rightarrow> string \<Rightarrow> int" where
  "entry cs k = (case map_of cs k of None \<Rightarrow> 0 | Some i \<Rightarrow> i)"

definition prefix_sum :: "(string \<times> int) list \<Rightarrow> string \<Rightarrow> int" where
  "prefix_sum cs p = sum_list (map snd (filter (\<lambda>(k, i). startswith k p) cs))"

text \<open>
  A raw record as the data model of the specification types it, every group and every
  field optional: the six parameters are integers, at top level and inside \<^verbatim>\<open>Opts\<close>;
  \<^verbatim>\<open>Verdict\<close> is a mapping; \<^verbatim>\<open>TimingsUS\<close> maps to integers and floats, the integers together
  within the range of a double; \<^verbatim>\<open>SizesB\<close> maps to integers.
\<close>

fun is_int_val :: "pyval \<Rightarrow> bool" where
  "is_int_val (PInt i) = True"
| "is_int_val v = False"

fun is_duration :: "pyval \<Rightarrow> bool" where
  "is_duration (PInt i) = True"
| "is_duration (PFloat x) = True"
| "is_duration v = False"

fun int_magnitude :: "pyval \<Rightarrow> int" where
  "int_magnitude (PInt i) = \<bar>i\<bar>"
| "int_magnitude v = 0"

definition absent_or :: "(pyval \<Rightarrow> bool) \<Rightarrow> (string \<times> pyval) list \<Rightarrow> string \<Rightarrow> bool" where
  "absent_or P kvs k = (case map_of kvs k of None \<Rightarrow> True | Some v \<Rightarrow> P v)"

fun opts_group :: "pyval \<Rightarrow> bool" where
  "opts_group (PDict kvs) = list_all (absent_or is_int_val kvs) param_names"
| "opts_group v = False"

fun verdict_group :: "pyval \<Rightarrow> bool" where
  "verdict_group (PDict kvs) = True"
| "verdict_group v = False"

fun timings_group :: "pyval \<Rightarrow> bool" where
  "timings_group (PDict kvs) =
     (list_all (\<lambda>(k, v). is_duration v) kvs
      \<and> sum_list (map (\<lambda>(k, v). int_magnitude v) kvs) < float_limit)"
| "timings_group v = False"

fun sizes_group :: "pyval \<Rightarrow> bool" where
  "sizes_group (PDict kvs) = list_all (\<lambda>(k, v). is_int_val v) kvs"
| "sizes_group v = False"

fun raw_record :: "pyval \<Rightarrow> bool" where
  "raw_record (PDict r) =
     (list_all (absent_or is_int_val r) param_names
      \<and> absent_or opts_group r ''Opts''
      \<and> absent_or verdict_group r ''Verdict''
      \<and> absent_or timings_group r ''TimingsUS''
      \<and> absent_or sizes_group r ''SizesB'')"
| "raw_record v = False"

definition del_key :: "string \<Rightarrow> (string \<times> pyval) list \<Rightarrow> (string \<times> pyval) list" where
  "del_key k kvs = filter (\<lambda>(k', v). k' \<noteq> k) kvs"

definition del_in :: "string \<Rightarrow> string \<Rightarrow> (string \<times> pyval) list \<Rightarrow> (string \<times> pyval) list" where
  "del_in g k r =
     map (\<lambda>(g', v). if g' = g then (g', case v of PDict kvs \<Rightarrow> PDict (del_key k kvs) | _ \<Rightarrow> v)
                     else (g', v)) r"

text \<open>
  The sizes that \<^verbatim>\<open>fmt_bytes\<close> can format: above \<open>- float_limit\<close> (the B branch converts
  the integer to a float) and below \<open>1024 * float_limit\<close> (the first division must give a
  finite double); and the metric records whose six sizes are all such.
\<close>

definition bytes_in_range :: "int \<Rightarrow> bool" where
  "bytes_in_range n = (- float_limit < n \<and> n < 1024 * float_limit)"

definition sizes_in_range :: "metric \<Rightarrow> bool" where
  "sizes_in_range r =
     list_all bytes_in_range
       [size_fpar_core r, size_fpar_norm r, size_fpar_total r,
        size_witness_norm r, size_witness_total r, size_total_bytes r]"

text \<open>A record with one size beyond the range of a double, and what it derives to.\<close>

definition huge_fields :: "(string \<times> pyval) list" where
  "huge_fields = [(''SizesB'', PDict [(''x'', PInt (2 ^ 1100))])]"

definition huge_metric :: metric where
  "huge_metric = zero_metric\<lparr> size_total_bytes := 2 ^ 1100 \<rparr>"

text \<open>Two metric records in descending key order.\<close>

definition two_rows :: "metric list" where
  "two_rows = [zero_metric\<lparr> Ncols := 2 \<rparr>, zero_metric\<lparr> Ncols := 1, size_total_bytes := 2048 \<rparr>]"

text \<open>The lexicographic order of the sort key, written out.\<close>

definition key_le :: "metric \<Rightarrow> metric \<Rightarrow> bool" where
  "key_le a b =
     (Ncols a < Ncols b \<or> Ncols a = Ncols b \<and>
     (ell a < ell b \<or> ell a = ell b \<and>
     (ellp a < ellp b \<or> ellp a = ellp b \<and>
     (rho a < rho b \<or> rho a = rho b \<and>
     (eta a < eta b \<or> eta a = eta b \<and> theta a \<le> theta b)))))"

text \<open>What one file contributes to the rows and to the error stream.\<close>

definition accepted_records :: "env \<Rightarrow> string \<Rightarrow> pyval list" where
  "accepted_records E path =
     (case json_load E path of
        Loaded (PDict kvs) \<Rightarrow> [PDict kvs]
      | Loaded (PList xs) \<Rightarrow> xs
      | _ \<Rightarrow> [])"

definition skip_warnings :: "env \<Rightarrow> string \<Rightarrow> string list" where
  "skip_warnings E path =
     (case json_load E path of
        Failed e \<Rightarrow> [''[warn] failed to parse '' @ path @ '': '' @ e]
      | Loaded (PDict kvs) \<Rightarrow> []
      | Loaded (PList xs) \<Rightarrow> []
      | Loaded _ \<Rightarrow> [''[warn] '' @ path @ '' ignored: top-level JSON is not a list/dict''])"

text \<open>A directory with the single file \<^verbatim>\<open>a.json\<close>, and the default arguments.\<close>

definition one_file_env :: "pyval \<Rightarrow> env" where
  "one_file_env v = \<lparr> glob_json = (\<lambda>d. [d @ ''/a.json'']), json_load = (\<lambda>p. Loaded v) \<rparr>"

definition default_args :: args where
  "default_args = \<lparr> inp = ''out'', md = ''summary.md'', csv = ''summary.csv'' \<rparr>"

section \<open>Properties\<close>

subsection \<open>The error monad and the groups of a record\<close>

lemma ebindE:
  assumes "ebind x f = Inr y"
  obtains v where "x = Inr v" and "f v = Inr y"
  using assms by (cases x) (auto simp: ebind_def)

lemma ebind_Inr [simp]: "ebind (Inr v) f = f v"
  by (simp add: ebind_def)

lemma ebind_Inl [simp]: "ebind (Inl e) f = Inl e"
  by (simp add: ebind_def)

lemma get_opt_param_spec:
  "get_opt (case map_of r ''Opts'' of None \<Rightarrow> PDict [] | Some v \<Rightarrow> v) (PDict r) name
     = Inr (param_spec r name)"
  by (auto simp: param_spec_def top_level_def split: option.splits pyval.splits)

lemma group_is_dict:
  assumes "dict_get (py_or (case map_of r g of None \<Rightarrow> PDict [] | Some v \<Rightarrow> v) (PDict [])) k d = Inr x"
  shows "py_or (case map_of r g of None \<Rightarrow> PDict [] | Some v \<Rightarrow> v) (PDict []) = PDict (the_group r g)"
  using assms by (auto simp: py_or_def the_group_def split: option.splits pyval.splits if_splits)

subsection \<open>Sums of timings\<close>

lemma py_add_Inr:
  assumes "py_add a v = Inr a'" and "is_acc a"
  shows "is_num v \<and> is_acc a' \<and> num_rat a' = num_rat a + num_rat v"
  using assms
  by (cases a; cases v) (auto simp: float_of_int_def ebind_def split: if_splits)

lemma py_sum_from_Inr:
  assumes "py_sum_from a vs = Inr x" and "is_acc a"
  shows "list_all is_num vs \<and> is_acc x \<and> num_rat x = num_rat a + sum_list (map num_rat vs)"
  using assms
proof (induction vs arbitrary: a)
  case Nil
  then show ?case by simp
next
  case (Cons v vs)
  from Cons.prems(1) obtain a' where a': "py_add a v = Inr a'" and rest: "py_sum_from a' vs = Inr x"
    by (auto elim: ebindE)
  from py_add_Inr [OF a' Cons.prems(2)]
  have v: "is_num v" and acc: "is_acc a'" and eq: "num_rat a' = num_rat a + num_rat v"
    by simp_all
  from Cons.IH [OF rest acc] v eq show ?case by simp
qed

lemma py_sum_Inr:
  assumes "py_sum vs = Inr x"
  shows "list_all is_num vs \<and> is_acc x \<and> num_rat x = sum_list (map num_rat vs)"
  using py_sum_from_Inr [of "PInt 0" vs x] assms by (simp add: py_sum_def)

lemma py_float_acc:
  assumes "py_float B x = Inr y" and "is_acc x"
  shows "y = num_rat x"
  using assms by (cases x) (auto simp: float_of_int_def split: if_splits)

lemma map_of_is_num:
  assumes "list_all is_num (map snd kvs)" and "map_of kvs k = Some v"
  shows "is_num v"
proof -
  from assms(2) have "(k, v) \<in> set kvs" by (rule map_of_SomeD)
  with assms(1) show ?thesis by (auto simp: list_all_iff)
qed

lemma int_magnitude_nonneg: "0 \<le> sum_list (map int_magnitude vs)"
proof (induction vs)
  case Nil
  then show ?case by simp
next
  case (Cons v vs)
  have "0 \<le> int_magnitude v" by (cases v) simp_all
  with Cons show ?case by simp
qed

lemma py_sum_from_float_total:
  assumes "list_all is_duration vs" and "sum_list (map int_magnitude vs) < float_limit"
  shows "\<exists>y. py_sum_from (PFloat x) vs = Inr (PFloat y)"
  using assms
proof (induction vs arbitrary: x)
  case Nil
  then show ?case by simp
next
  case (Cons v vs)
  note nn = int_magnitude_nonneg [of vs]
  show ?case
  proof (cases v)
    case (PInt b)
    with Cons.prems nn have b: "\<bar>b\<bar> < float_limit" and rest: "sum_list (map int_magnitude vs) < float_limit"
      by simp_all
    from Cons.prems have "list_all is_duration vs" by simp
    from Cons.IH [OF this rest] PInt b show ?thesis by (simp add: float_of_int_def)
  next
    case (PFloat y)
    with Cons.prems have rest: "sum_list (map int_magnitude vs) < float_limit" by simp
    from Cons.prems have "list_all is_duration vs" by simp
    from Cons.IH [OF this rest] PFloat show ?thesis by simp
  qed (use Cons.prems in simp_all)
qed

lemma py_sum_from_int_total:
  assumes "list_all is_duration vs" and "\<bar>a\<bar> + sum_list (map int_magnitude vs) < float_limit"
  shows "\<exists>x. py_sum_from (PInt a) vs = Inr x \<and> is_acc x \<and> int_magnitude x < float_limit"
  using assms
proof (induction vs arbitrary: a)
  case Nil
  then show ?case by simp
next
  case (Cons v vs)
  note nn = int_magnitude_nonneg [of vs]
  from Cons.prems have ds: "list_all is_duration vs" by simp
  show ?case
  proof (cases v)
    case (PInt b)
    with Cons.prems have "\<bar>a + b\<bar> + sum_list (map int_magnitude vs) < float_limit" by simp
    from Cons.IH [OF ds this] PInt show ?thesis by simp
  next
    case (PFloat y)
    with Cons.prems nn have a: "\<bar>a\<bar> < float_limit" and rest: "sum_list (map int_magnitude vs) < float_limit"
      by simp_all
    from py_sum_from_float_total [OF ds rest] obtain z where "py_sum_from (PFloat (of_int a + y)) vs = Inr (PFloat z)"
      by blast
    with PFloat a nn show ?thesis by (simp add: float_of_int_def float_limit_def)
  qed (use Cons.prems in simp_all)
qed

lemma py_sum_total:
  assumes "list_all is_duration vs" and "sum_list (map int_magnitude vs) < float_limit"
  shows "\<exists>x. py_sum vs = Inr x \<and> is_acc x \<and> int_magnitude x < float_limit"
  using py_sum_from_int_total [of vs 0] assms by (simp add: py_sum_def)

lemma py_float_total:
  assumes "is_acc x" and "int_magnitude x < float_limit"
  shows "\<exists>y. py_float B x = Inr y"
  using assms by (cases x) (simp_all add: float_of_int_def)

lemma duration_entry:
  assumes "list_all (\<lambda>(k, v). is_duration v) kvs"
    and "sum_list (map (\<lambda>(k, v). int_magnitude v) kvs) < float_limit"
    and "map_of kvs k = Some v"
  shows "is_duration v \<and> int_magnitude v < float_limit"
  using assms
proof (induction kvs)
  case Nil
  then show ?case by simp
next
  case (Cons kv kvs)
  obtain k' v' where kv: "kv = (k', v')" by (cases kv)
  have nn: "0 \<le> sum_list (map (\<lambda>(k, v). int_magnitude v) kvs)"
    using int_magnitude_nonneg [of "map snd kvs"] by (simp add: comp_def case_prod_unfold)
  have nv: "0 \<le> int_magnitude v'" by (cases v') simp_all
  show ?case
  proof (cases "k' = k")
    case True
    with Cons.prems kv nn show ?thesis by simp
  next
    case False
    with Cons.prems kv nv have "list_all (\<lambda>(k, v). is_duration v) kvs"
      and "sum_list (map (\<lambda>(k, v). int_magnitude v) kvs) < float_limit"
      and "map_of kvs k = Some v" by simp_all
    then show ?thesis by (rule Cons.IH)
  qed
qed

subsection \<open>Coerced sizes\<close>

lemma coerce_sizes_Cons:
  "coerce_sizes B ((k, v) # ss) =
     ebind (py_int B v) (\<lambda>i. ebind (coerce_sizes B ss) (\<lambda>cs. Inr ((k, i) # cs)))"
  by (cases "py_int B v") (simp_all add: coerce_sizes_def)

lemma coerce_sizes_Nil [simp]: "coerce_sizes B [] = Inr []"
  by (simp add: coerce_sizes_def)

lemma coerce_sizes_exists:
  assumes "emap (py_int B) (map snd ss) = Inr ints"
  shows "\<exists>cs. coerce_sizes B ss = Inr cs \<and> map snd cs = ints"
  using assms
proof (induction ss arbitrary: ints)
  case Nil
  then show ?case by simp
next
  case (Cons kv ss)
  obtain k v where kv: "kv = (k, v)" by (cases kv)
  from Cons.prems kv obtain i rest where i: "py_int B v = Inr i"
    and rest: "emap (py_int B) (map snd ss) = Inr rest" and ints: "ints = i # rest"
    by (auto elim!: ebindE)
  from Cons.IH [OF rest] obtain cs where "coerce_sizes B ss = Inr cs" "map snd cs = rest"
    by blast
  with i ints kv show ?case by (simp add: coerce_sizes_Cons)
qed

lemma coerce_sizes_filter:
  assumes "coerce_sizes B ss = Inr cs"
  shows "emap (py_int B) (map snd (filter (\<lambda>(k, v). P k) ss))
           = Inr (map snd (filter (\<lambda>(k, i). P k) cs))"
  using assms
proof (induction ss arbitrary: cs)
  case Nil
  then show ?case by simp
next
  case (Cons kv ss)
  obtain k v where kv: "kv = (k, v)" by (cases kv)
  from Cons.prems kv obtain i rest where i: "py_int B v = Inr i"
    and rest: "coerce_sizes B ss = Inr rest" and cs: "cs = (k, i) # rest"
    by (auto simp: coerce_sizes_Cons elim!: ebindE)
  from Cons.IH [OF rest] i cs kv show ?case by simp
qed

lemma coerce_sizes_entry:
  assumes "coerce_sizes B ss = Inr cs"
  shows "py_int B (case map_of ss k of None \<Rightarrow> PInt 0 | Some v \<Rightarrow> v) = Inr (entry cs k)"
  using assms
proof (induction ss arbitrary: cs)
  case Nil
  then show ?case by (simp add: entry_def)
next
  case (Cons kv ss)
  obtain k' v where kv: "kv = (k', v)" by (cases kv)
  from Cons.prems kv obtain i rest where i: "py_int B v = Inr i"
    and rest: "coerce_sizes B ss = Inr rest" and cs: "cs = (k', i) # rest"
    by (auto simp: coerce_sizes_Cons elim!: ebindE)
  from Cons.IH [OF rest] i cs kv show ?case by (simp add: entry_def)
qed

lemma coerce_sizes_total:
  assumes "list_all (\<lambda>(k, v). is_int_val v) ss"
  shows "\<exists>cs. coerce_sizes B ss = Inr cs"
  using assms
proof (induction ss)
  case Nil
  then show ?case by simp
next
  case (Cons kv ss)
  obtain k v where kv: "kv = (k, v)" by (cases kv)
  from Cons.prems kv obtain i where i: "v = PInt i" by (cases v) simp_all
  from Cons.prems Cons.IH obtain cs where "coerce_sizes B ss = Inr cs" by auto
  with kv i show ?case by (simp add: coerce_sizes_Cons)
qed

lemma coerce_sizes_values:
  assumes "coerce_sizes B ss = Inr cs"
  shows "emap (py_int B) (map snd ss) = Inr (map snd cs)"
  using coerce_sizes_filter [OF assms, of "\<lambda>k. True"] by simp

subsection \<open>What a successful derivation has computed\<close>

lemma derive_timing_facts:
  assumes "derive B (PDict r) = Inr m"
  obtains total0 total_us norm_v t_norm total_f where
    "dict_get (py_or (case map_of r ''TimingsUS'' of None \<Rightarrow> PDict [] | Some v \<Rightarrow> v) (PDict []))
       ''__total__'' PNone = Inr total0"
    "(if total0 = PNone
      then ebind (dict_values (py_or (case map_of r ''TimingsUS'' of None \<Rightarrow> PDict [] | Some v \<Rightarrow> v) (PDict []))) py_sum
      else Inr total0) = Inr total_us"
    "dict_get (py_or (case map_of r ''TimingsUS'' of None \<Rightarrow> PDict [] | Some v \<Rightarrow> v) (PDict []))
       ''buildFparLinfChain'' (PFloat 0) = Inr norm_v"
    "py_float B norm_v = Inr t_norm"
    "py_float B total_us = Inr total_f"
    "t_total_ms m = total_f / 1000" "t_norm_ms m = t_norm / 1000"
  using assms unfolding derive_def Let_def
  apply (simp add: get_opt_param_spec)
  apply (elim ebindE)
  apply auto
  done

lemma derive_size_facts:
  assumes "derive B (PDict r) = Inr m"
  obtains vals all_ints items fpar_ints core_v fnorm_v wit_ints m_v d_v wit_m wit_d where
    "dict_values (py_or (case map_of r ''SizesB'' of None \<Rightarrow> PDict [] | Some v \<Rightarrow> v) (PDict [])) = Inr vals"
    "emap (py_int B) vals = Inr all_ints"
    "dict_items (py_or (case map_of r ''SizesB'' of None \<Rightarrow> PDict [] | Some v \<Rightarrow> v) (PDict [])) = Inr items"
    "emap (py_int B) (map snd (filter (\<lambda>(k, v). startswith k ''piop/Fpar/'') items)) = Inr fpar_ints"
    "dict_get (py_or (case map_of r ''SizesB'' of None \<Rightarrow> PDict [] | Some v \<Rightarrow> v) (PDict []))
       ''piop/Fpar/core'' (PInt 0) = Inr core_v"
    "dict_get (py_or (case map_of r ''SizesB'' of None \<Rightarrow> PDict [] | Some v \<Rightarrow> v) (PDict []))
       ''piop/Fpar/linf_chain'' (PInt 0) = Inr fnorm_v"
    "emap (py_int B) (map snd (filter (\<lambda>(k, v). startswith k ''piop/witness/'') items)) = Inr wit_ints"
    "dict_get (py_or (case map_of r ''SizesB'' of None \<Rightarrow> PDict [] | Some v \<Rightarrow> v) (PDict []))
       ''piop/witness/linf_chain/M'' (PInt 0) = Inr m_v"
    "dict_get (py_or (case map_of r ''SizesB'' of None \<Rightarrow> PDict [] | Some v \<Rightarrow> v) (PDict []))
       ''piop/witness/linf_chain/D'' (PInt 0) = Inr d_v"
    "py_int B core_v = Inr (size_fpar_core m)"
    "py_int B fnorm_v = Inr (size_fpar_norm m)"
    "py_int B m_v = Inr wit_m" "py_int B d_v = Inr wit_d"
    "size_witness_norm m = wit_m + wit_d"
    "size_total_bytes m = sum_list all_ints"
    "size_fpar_total m = sum_list fpar_ints"
    "size_witness_total m = sum_list wit_ints"
  using assms unfolding derive_def Let_def
  apply (simp add: get_opt_param_spec)
  apply (elim ebindE)
  apply auto
  done

lemma derive_dictI:
  assumes "dict_get (py_or (case map_of r ''Verdict'' of None \<Rightarrow> PDict [] | Some v \<Rightarrow> v) (PDict [])) ''OkLin'' (PBool False) = Inr lin_v"
    and "dict_get (py_or (case map_of r ''Verdict'' of None \<Rightarrow> PDict [] | Some v \<Rightarrow> v) (PDict [])) ''OkEq4'' (PBool False) = Inr eq4_v"
    and "dict_get (py_or (case map_of r ''Verdict'' of None \<Rightarrow> PDict [] | Some v \<Rightarrow> v) (PDict [])) ''OkSum'' (PBool False) = Inr sum_v"
    and "dict_get (py_or (case map_of r ''TimingsUS'' of None \<Rightarrow> PDict [] | Some v \<Rightarrow> v) (PDict [])) ''__total__'' PNone = Inr total0"
    and "(if total0 = PNone
          then ebind (dict_values (py_or (case map_of r ''TimingsUS'' of None \<Rightarrow> PDict [] | Some v \<Rightarrow> v) (PDict []))) py_sum
          else Inr total0) = Inr total_us"
    and "dict_get (py_or (case map_of r ''TimingsUS'' of None \<Rightarrow> PDict [] | Some v \<Rightarrow> v) (PDict [])) ''buildFparLinfChain'' (PFloat 0) = Inr norm_v"
    and "py_float B norm_v = Inr t_norm"
    and "dict_values (py_or (case map_of r ''SizesB'' of None \<Rightarrow> PDict [] | Some v \<Rightarrow> v) (PDict [])) = Inr vals"
    and "emap (py_int B) vals = Inr all_ints"
    and "dict_items (py_or (case map_of r ''SizesB'' of None \<Rightarrow> PDict [] | Some v \<Rightarrow> v) (PDict [])) = Inr items"
    and "emap (py_int B) (map snd (filter (\<lambda>(k, v). startswith k ''piop/Fpar/'') items)) = Inr fpar_ints"
    and "dict_get (py_or (case map_of r ''SizesB'' of None \<Rightarrow> PDict [] | Some v \<Rightarrow> v) (PDict [])) ''piop/Fpar/core'' (PInt 0) = Inr core_v"
    and "py_int B core_v = Inr fpar_core"
    and "dict_get (py_or (case map_of r ''SizesB'' of None \<Rightarrow> PDict [] | Some v \<Rightarrow> v) (PDict [])) ''piop/Fpar/linf_chain'' (PInt 0) = Inr fnorm_v"
    and "py_int B fnorm_v = Inr fpar_norm"
    and "emap (py_int B) (map snd (filter (\<lambda>(k, v). startswith k ''piop/witness/'') items)) = Inr wit_ints"
    and "dict_get (py_or (case map_of r ''SizesB'' of None \<Rightarrow> PDict [] | Some v \<Rightarrow> v) (PDict [])) ''piop/witness/linf_chain/M'' (PInt 0) = Inr m_v"
    and "py_int B m_v = Inr wit_m"
    and "dict_get (py_or (case map_of r ''SizesB'' of None \<Rightarrow> PDict [] | Some v \<Rightarrow> v) (PDict [])) ''piop/witness/linf_chain/D'' (PInt 0) = Inr d_v"
    and "py_int B d_v = Inr wit_d"
    and "py_int B (param_spec r ''NCols'') = Inr ncols_i"
    and "py_int B (param_spec r ''Ell'') = Inr ell_i"
    and "py_int B (param_spec r ''EllPrime'') = Inr ellp_i"
    and "py_int B (param_spec r ''Rho'') = Inr rho_i"
    and "py_int B (param_spec r ''Eta'') = Inr eta_i"
    and "py_int B (param_spec r ''Theta'') = Inr theta_i"
    and "py_float B total_us = Inr total_f"
  shows "derive B (PDict r) =
     Inr \<lparr> Ncols = ncols_i, ell = ell_i, ellp = ellp_i, rho = rho_i, eta = eta_i,
           theta = theta_i, ok_lin = truthy lin_v, ok_eq4 = truthy eq4_v, ok_sum = truthy sum_v,
           ok_all = (truthy lin_v \<and> truthy eq4_v \<and> truthy sum_v),
           t_total_ms = total_f / 1000, t_norm_ms = t_norm / 1000,
           size_fpar_core = fpar_core, size_fpar_norm = fpar_norm,
           size_fpar_total = sum_list fpar_ints, size_witness_norm = wit_m + wit_d,
           size_witness_total = sum_list wit_ints, size_total_bytes = sum_list all_ints \<rparr>"
  unfolding derive_def Let_def using assms
  by (simp add: get_opt_param_spec)

lemma derive_cong:
  assumes "param_spec r ''NCols'' = param_spec r' ''NCols''"
    and "param_spec r ''Ell'' = param_spec r' ''Ell''"
    and "param_spec r ''EllPrime'' = param_spec r' ''EllPrime''"
    and "param_spec r ''Rho'' = param_spec r' ''Rho''"
    and "param_spec r ''Eta'' = param_spec r' ''Eta''"
    and "param_spec r ''Theta'' = param_spec r' ''Theta''"
    and "py_or (case map_of r ''Verdict'' of None \<Rightarrow> PDict [] | Some v \<Rightarrow> v) (PDict [])
           = py_or (case map_of r' ''Verdict'' of None \<Rightarrow> PDict [] | Some v \<Rightarrow> v) (PDict [])"
    and "py_or (case map_of r ''TimingsUS'' of None \<Rightarrow> PDict [] | Some v \<Rightarrow> v) (PDict [])
           = py_or (case map_of r' ''TimingsUS'' of None \<Rightarrow> PDict [] | Some v \<Rightarrow> v) (PDict [])"
    and "py_or (case map_of r ''SizesB'' of None \<Rightarrow> PDict [] | Some v \<Rightarrow> v) (PDict [])
           = py_or (case map_of r' ''SizesB'' of None \<Rightarrow> PDict [] | Some v \<Rightarrow> v) (PDict [])"
  shows "derive B (PDict r) = derive B (PDict r')"
  unfolding derive_def Let_def get_opt_param_spec dict_get.simps ebind_Inr assms ..

subsection \<open>Raw records derive\<close>

lemma group_of_dict:
  assumes "absent_or P r g" and "\<And>v. P v \<Longrightarrow> \<exists>kvs. v = PDict kvs"
  shows "py_or (case map_of r g of None \<Rightarrow> PDict [] | Some v \<Rightarrow> v) (PDict []) = PDict (the_group r g)"
proof (cases "map_of r g")
  case None
  then show ?thesis by (simp add: py_or_def the_group_def)
next
  case (Some v)
  with assms(1) have "P v" by (simp add: absent_or_def)
  then obtain kvs where "v = PDict kvs" using assms(2) by blast
  with Some show ?thesis by (simp add: py_or_def the_group_def)
qed

lemma group_holds:
  assumes "absent_or P r g" and "P (PDict [])" and "\<And>v. P v \<Longrightarrow> \<exists>kvs. v = PDict kvs"
  shows "P (PDict (the_group r g))"
proof (cases "map_of r g")
  case None
  with assms(2) show ?thesis by (simp add: the_group_def)
next
  case (Some v)
  with assms(1) have v: "P v" by (simp add: absent_or_def)
  then obtain kvs where "v = PDict kvs" using assms(3) by blast
  with Some v show ?thesis by (simp add: the_group_def)
qed

lemma verdict_group_dict: "verdict_group v \<Longrightarrow> \<exists>kvs. v = PDict kvs"
  by (cases v) simp_all

lemma timings_group_dict: "timings_group v \<Longrightarrow> \<exists>kvs. v = PDict kvs"
  by (cases v) simp_all

lemma sizes_group_dict: "sizes_group v \<Longrightarrow> \<exists>kvs. v = PDict kvs"
  by (cases v) simp_all

lemma param_spec_int:
  assumes "absent_or is_int_val r name" and "absent_or opts_group r ''Opts''"
    and "name \<in> set param_names"
  shows "\<exists>i. param_spec r name = PInt i"
proof -
  have top: "\<exists>i. top_level r name = PInt i"
  proof (cases "map_of r name")
    case None
    then show ?thesis by (simp add: top_level_def)
  next
    case (Some v)
    with assms(1) have "is_int_val v" by (simp add: absent_or_def)
    then obtain i where "v = PInt i" by (cases v) simp_all
    with Some show ?thesis by (simp add: top_level_def)
  qed
  show ?thesis
  proof (cases "map_of r ''Opts''")
    case None
    with top show ?thesis by (simp add: param_spec_def)
  next
    case (Some ov)
    with assms(2) have og: "opts_group ov" by (simp add: absent_or_def)
    then obtain okvs where ov: "ov = PDict okvs" by (cases ov) simp_all
    show ?thesis
    proof (cases "map_of okvs name")
      case None
      with Some ov top show ?thesis by (simp add: param_spec_def)
    next
      case inner: (Some v)
      from og ov assms(3) have "absent_or is_int_val okvs name" by (simp add: list_all_iff)
      with inner have "is_int_val v" by (simp add: absent_or_def)
      then obtain i where "v = PInt i" by (cases v) simp_all
      with Some ov inner show ?thesis by (simp add: param_spec_def)
    qed
  qed
qed

lemma raw_record_derives:
  assumes "raw_record (PDict r)"
  shows "\<exists>m. derive B (PDict r) = Inr m"
proof -
  let ?V = "py_or (case map_of r ''Verdict'' of None \<Rightarrow> PDict [] | Some v \<Rightarrow> v) (PDict [])"
  let ?T = "py_or (case map_of r ''TimingsUS'' of None \<Rightarrow> PDict [] | Some v \<Rightarrow> v) (PDict [])"
  let ?S = "py_or (case map_of r ''SizesB'' of None \<Rightarrow> PDict [] | Some v \<Rightarrow> v) (PDict [])"
  let ?vs = "the_group r ''Verdict''" and ?ts = "the_group r ''TimingsUS''"
    and ?ss = "the_group r ''SizesB''"
  from assms have tops: "list_all (absent_or is_int_val r) param_names"
    and og: "absent_or opts_group r ''Opts''"
    and vg: "absent_or verdict_group r ''Verdict''"
    and tg: "absent_or timings_group r ''TimingsUS''"
    and sg: "absent_or sizes_group r ''SizesB''"
    by simp_all
  have V: "?V = PDict ?vs" using vg verdict_group_dict by (rule group_of_dict)
  have T: "?T = PDict ?ts" using tg timings_group_dict by (rule group_of_dict)
  have S: "?S = PDict ?ss" using sg sizes_group_dict by (rule group_of_dict)
  have "timings_group (PDict ?ts)"
    using tg _ timings_group_dict by (rule group_holds) (simp add: float_limit_def)
  then have durs: "list_all (\<lambda>(k, v). is_duration v) ?ts"
    and bound: "sum_list (map (\<lambda>(k, v). int_magnitude v) ?ts) < float_limit"
    by simp_all
  have "sizes_group (PDict ?ss)"
    using sg _ sizes_group_dict by (rule group_holds) simp
  then have ints: "list_all (\<lambda>(k, v). is_int_val v) ?ss" by simp
  have v1: "dict_get ?V ''OkLin'' (PBool False)
              = Inr (case map_of ?vs ''OkLin'' of None \<Rightarrow> PBool False | Some v \<Rightarrow> v)"
    and v2: "dict_get ?V ''OkEq4'' (PBool False)
              = Inr (case map_of ?vs ''OkEq4'' of None \<Rightarrow> PBool False | Some v \<Rightarrow> v)"
    and v3: "dict_get ?V ''OkSum'' (PBool False)
              = Inr (case map_of ?vs ''OkSum'' of None \<Rightarrow> PBool False | Some v \<Rightarrow> v)"
    by (simp_all add: V)
  let ?total0 = "case map_of ?ts ''__total__'' of None \<Rightarrow> PNone | Some v \<Rightarrow> v"
  let ?norm = "case map_of ?ts ''buildFparLinfChain'' of None \<Rightarrow> PFloat 0 | Some v \<Rightarrow> v"
  have t1: "dict_get ?T ''__total__'' PNone = Inr ?total0" by (simp add: T)
  have t3: "dict_get ?T ''buildFparLinfChain'' (PFloat 0) = Inr ?norm" by (simp add: T)
  have durs': "list_all is_duration (map snd ?ts)"
    using durs by (simp add: list_all_iff case_prod_unfold)
  have bound': "sum_list (map int_magnitude (map snd ?ts)) < float_limit"
    using bound by (simp add: comp_def case_prod_unfold)
  from py_sum_total [OF durs' bound'] obtain sv where
    sv: "py_sum (map snd ?ts) = Inr sv" and sv_acc: "is_acc sv"
    and sv_bound: "int_magnitude sv < float_limit" by blast
  obtain total_us where
    t2: "(if ?total0 = PNone then ebind (dict_values ?T) py_sum else Inr ?total0) = Inr total_us"
    and tu_acc: "is_acc total_us" and tu_bound: "int_magnitude total_us < float_limit"
  proof (cases "?total0 = PNone")
    case True
    with sv have "(if ?total0 = PNone then ebind (dict_values ?T) py_sum else Inr ?total0) = Inr sv"
      by (simp add: T dict_values_def)
    with sv_acc sv_bound that show ?thesis by blast
  next
    case False
    then obtain v where some: "map_of ?ts ''__total__'' = Some v" by (cases "map_of ?ts ''__total__''") auto
    from duration_entry [OF durs bound some] have "is_duration v" "int_magnitude v < float_limit"
      by simp_all
    moreover from this(1) have "is_acc v" by (cases v) simp_all
    moreover from False some
    have "(if ?total0 = PNone then ebind (dict_values ?T) py_sum else Inr ?total0) = Inr v"
      by simp
    ultimately show ?thesis using that by blast
  qed
  from py_float_total [OF tu_acc tu_bound] obtain total_f where
    tf: "py_float B total_us = Inr total_f" by blast
  obtain t_norm where t4: "py_float B ?norm = Inr t_norm"
  proof (cases "map_of ?ts ''buildFparLinfChain''")
    case None
    then have "py_float B ?norm = Inr 0" by simp
    with that show ?thesis by blast
  next
    case (Some v)
    from duration_entry [OF durs bound Some] have d: "is_duration v" and b: "int_magnitude v < float_limit"
      by simp_all
    from d have "is_acc v" by (cases v) simp_all
    from py_float_total [OF this b] Some that show ?thesis by auto
  qed
  from coerce_sizes_total [OF ints] obtain cs where cs: "coerce_sizes B ?ss = Inr cs" by blast
  have s1: "dict_values ?S = Inr (map snd ?ss)" by (simp add: S dict_values_def)
  have s2: "emap (py_int B) (map snd ?ss) = Inr (map snd cs)" using cs by (rule coerce_sizes_values)
  have s3: "dict_items ?S = Inr ?ss" by (simp add: S)
  note s4 = coerce_sizes_filter [OF cs, of "\<lambda>k. startswith k ''piop/Fpar/''"]
  note s7 = coerce_sizes_filter [OF cs, of "\<lambda>k. startswith k ''piop/witness/''"]
  have g: "\<And>k. dict_get ?S k (PInt 0) = Inr (case map_of ?ss k of None \<Rightarrow> PInt 0 | Some v \<Rightarrow> v)"
    by (simp add: S)
  note e = coerce_sizes_entry [OF cs]
  have p: "\<exists>i. py_int B (param_spec r name) = Inr i" if "name \<in> set param_names" for name
  proof -
    from tops that have "absent_or is_int_val r name" by (simp add: list_all_iff)
    from param_spec_int [OF this og that] show ?thesis by auto
  qed
  from p [of "''NCols''"] obtain p1 where p1: "py_int B (param_spec r ''NCols'') = Inr p1"
    by (auto simp: param_names_def)
  from p [of "''Ell''"] obtain p2 where p2: "py_int B (param_spec r ''Ell'') = Inr p2"
    by (auto simp: param_names_def)
  from p [of "''EllPrime''"] obtain p3 where p3: "py_int B (param_spec r ''EllPrime'') = Inr p3"
    by (auto simp: param_names_def)
  from p [of "''Rho''"] obtain p4 where p4: "py_int B (param_spec r ''Rho'') = Inr p4"
    by (auto simp: param_names_def)
  from p [of "''Eta''"] obtain p5 where p5: "py_int B (param_spec r ''Eta'') = Inr p5"
    by (auto simp: param_names_def)
  from p [of "''Theta''"] obtain p6 where p6: "py_int B (param_spec r ''Theta'') = Inr p6"
    by (auto simp: param_names_def)
  from derive_dictI [OF v1 v2 v3 t1 t2 t3 t4 s1 s2 s3 s4 g e g e s7 g e g e p1 p2 p3 p4 p5 p6 tf]
  show ?thesis by blast
qed

lemma map_of_del_key: "map_of (del_key k kvs) k' = (if k' = k then None else map_of kvs k')"
  by (induction kvs) (auto simp: del_key_def)

lemma absent_or_del_key: "absent_or P kvs k' \<Longrightarrow> absent_or P (del_key k kvs) k'"
  by (simp add: absent_or_def map_of_del_key)

lemma raw_record_del_key:
  assumes "raw_record (PDict r)"
  shows "raw_record (PDict (del_key k r))"
  using assms by (auto simp: list_all_iff intro: absent_or_del_key)

lemma map_of_del_in:
  "map_of (del_in g k r) k' =
     (if k' = g then map_option (\<lambda>v. case v of PDict kvs \<Rightarrow> PDict (del_key k kvs) | _ \<Rightarrow> v) (map_of r g)
      else map_of r k')"
  by (induction r) (auto simp: del_in_def split: pyval.splits)

lemma sum_magnitude_del_key:
  "sum_list (map (\<lambda>(k, v). int_magnitude v) (del_key k kvs))
     \<le> sum_list (map (\<lambda>(k, v). int_magnitude v) kvs)"
proof (induction kvs)
  case Nil
  then show ?case by (simp add: del_key_def)
next
  case (Cons kv kvs)
  obtain k' v' where kv: "kv = (k', v')" by (cases kv)
  have "0 \<le> int_magnitude v'" by (cases v') simp_all
  with Cons kv show ?case by (simp add: del_key_def)
qed

lemma absent_or_del_in:
  assumes "absent_or P r k'" and "\<And>kvs. P (PDict kvs) \<Longrightarrow> P (PDict (del_key k kvs))"
  shows "absent_or P (del_in g k r) k'"
  using assms by (auto simp: absent_or_def map_of_del_in split: option.splits pyval.splits)

lemma raw_record_del_in:
  assumes "raw_record (PDict r)"
  shows "raw_record (PDict (del_in g k r))"
proof -
  have i: "is_int_val (PDict kvs) \<Longrightarrow> is_int_val (PDict (del_key k kvs))" for kvs by simp
  have o: "opts_group (PDict kvs) \<Longrightarrow> opts_group (PDict (del_key k kvs))" for kvs
    by (auto simp: list_all_iff intro: absent_or_del_key)
  have v: "verdict_group (PDict kvs) \<Longrightarrow> verdict_group (PDict (del_key k kvs))" for kvs by simp
  have t: "timings_group (PDict kvs) \<Longrightarrow> timings_group (PDict (del_key k kvs))" for kvs
    using sum_magnitude_del_key [of k kvs] by (auto simp: list_all_iff del_key_def)
  have s: "sizes_group (PDict kvs) \<Longrightarrow> sizes_group (PDict (del_key k kvs))" for kvs
    by (auto simp: list_all_iff del_key_def)
  from assms show ?thesis
    by (auto simp: list_all_iff intro: absent_or_del_in i o v t s)
qed

subsection \<open>Rendering and loading\<close>

lemma key_le_row_key: "key_le a b \<longleftrightarrow> row_key a \<le> row_key b"
  by (auto simp: key_le_def row_key_def)

lemma emap_Inr_map:
  assumes "emap f xs = Inr ys"
  shows "map f xs = map Inr ys"
  using assms
proof (induction xs arbitrary: ys)
  case Nil
  then show ?case by simp
next
  case (Cons x xs)
  from Cons.prems obtain y rest where "f x = Inr y" "emap f xs = Inr rest" "ys = y # rest"
    by (auto elim!: ebindE)
  with Cons.IH [of rest] show ?case by simp
qed

lemma emap_all_Inr:
  assumes "list_all (\<lambda>x. \<exists>y. f x = Inr y) xs"
  shows "\<exists>ys. emap f xs = Inr ys"
  using assms
proof (induction xs)
  case Nil
  then show ?case by simp
next
  case (Cons x xs)
  from Cons.prems obtain y where "f x = Inr y" by auto
  moreover from Cons obtain ys where "emap f xs = Inr ys" by auto
  ultimately show ?case by simp
qed

lemma emap_some_Inl:
  assumes "list_all (\<lambda>x. (\<exists>y. f x = Inr y) \<or> f x = Inl e) xs"
    and "\<not> list_all (\<lambda>x. \<exists>y. f x = Inr y) xs"
  shows "emap f xs = Inl e"
  using assms
proof (induction xs)
  case Nil
  then show ?case by simp
next
  case (Cons x xs)
  show ?case
  proof (cases "\<exists>y. f x = Inr y")
    case True
    then obtain y where y: "f x = Inr y" by blast
    with Cons.prems have "\<not> list_all (\<lambda>x. \<exists>y. f x = Inr y) xs" by simp
    moreover from Cons.prems have "list_all (\<lambda>x. (\<exists>y. f x = Inr y) \<or> f x = Inl e) xs" by simp
    ultimately have "emap f xs = Inl e" by (rule Cons.IH [rotated])
    with y show ?thesis by simp
  next
    case False
    with Cons.prems have "f x = Inl e" by simp
    then show ?thesis by simp
  qed
qed

lemma float_limit_above: "1024 < float_limit"
  by (simp add: float_limit_def)

lemma fmt_bytes_float_rounds:
  "\<exists>s. fmt_bytes_loop (NFloat x) [''KiB'', ''MiB'', ''GiB''] = Inr (Some s)"
  by simp

lemma fmt_bytes_returns:
  assumes "bytes_in_range n"
  shows "\<exists>s. fmt_bytes n = Inr (Some s)"
proof (cases "n < 1024")
  case True
  with assms float_limit_above have "\<bar>n\<bar> < float_limit" by (simp add: bytes_in_range_def)
  with True show ?thesis by (simp add: fmt_bytes_def)
next
  case False
  with assms have "\<bar>n\<bar> < 1024 * float_limit" by (simp add: bytes_in_range_def)
  with False fmt_bytes_float_rounds [of "of_int (round53 n) / 1024"] show ?thesis
    by (simp add: fmt_bytes_def)
qed

lemma fmt_bytes_overflow:
  assumes "\<not> bytes_in_range n"
  shows "fmt_bytes n = Inl OverflowError"
proof (cases "n < 1024")
  case True
  with assms float_limit_above have "\<not> \<bar>n\<bar> < float_limit" by (simp add: bytes_in_range_def)
  with True show ?thesis by (simp add: fmt_bytes_def)
next
  case False
  with assms float_limit_above have "\<not> \<bar>n\<bar> < 1024 * float_limit" by (simp add: bytes_in_range_def)
  with False show ?thesis by (simp add: fmt_bytes_def)
qed

lemma bytes_cell_returns: "bytes_in_range n \<Longrightarrow> \<exists>s. bytes_cell n = Inr s"
  using fmt_bytes_returns [of n] by (auto simp: bytes_cell_def)

lemma bytes_cell_overflow: "\<not> bytes_in_range n \<Longrightarrow> bytes_cell n = Inl OverflowError"
  by (simp add: bytes_cell_def fmt_bytes_overflow)

lemma bytes_cell_cases:
  "list_all (\<lambda>n. (\<exists>s. bytes_cell n = Inr s) \<or> bytes_cell n = Inl OverflowError) ns"
  using bytes_cell_returns bytes_cell_overflow by (auto simp: list_all_iff)

lemma bytes_cell_Inr_iff: "(\<exists>s. bytes_cell n = Inr s) \<longleftrightarrow> bytes_in_range n"
proof (cases "bytes_in_range n")
  case True
  with bytes_cell_returns [of n] show ?thesis by simp
next
  case False
  with bytes_cell_overflow [of n] show ?thesis by simp
qed

lemma md_line_returns:
  assumes "sizes_in_range r"
  shows "\<exists>s. md_line r = Inr s"
proof -
  let ?ns = "[size_fpar_core r, size_fpar_norm r, size_fpar_total r,
              size_witness_norm r, size_witness_total r, size_total_bytes r]"
  from assms have "list_all (\<lambda>n. \<exists>s. bytes_cell n = Inr s) ?ns"
    unfolding sizes_in_range_def bytes_cell_Inr_iff .
  from emap_all_Inr [OF this] obtain cells where "emap bytes_cell ?ns = Inr cells" by blast
  then show ?thesis unfolding md_line_def by simp
qed

lemma md_line_overflow:
  assumes "\<not> sizes_in_range r"
  shows "md_line r = Inl OverflowError"
proof -
  let ?ns = "[size_fpar_core r, size_fpar_norm r, size_fpar_total r,
              size_witness_norm r, size_witness_total r, size_total_bytes r]"
  from assms have "\<not> list_all (\<lambda>n. \<exists>s. bytes_cell n = Inr s) ?ns"
    unfolding sizes_in_range_def bytes_cell_Inr_iff .
  from emap_some_Inl [OF bytes_cell_cases this] have "emap bytes_cell ?ns = Inl OverflowError" .
  then show ?thesis unfolding md_line_def by simp
qed

lemma md_line_Inr_iff: "(\<exists>s. md_line r = Inr s) \<longleftrightarrow> sizes_in_range r"
proof (cases "sizes_in_range r")
  case True
  with md_line_returns [of r] show ?thesis by simp
next
  case False
  with md_line_overflow [of r] show ?thesis by simp
qed

lemma list_all_rows_sorted: "list_all P (rows_sorted rows) = list_all P rows"
  by (simp add: rows_sorted_def list_all_iff)

lemma md_lines_returns:
  assumes "list_all sizes_in_range rows"
  shows "\<exists>data_lines. emap md_line (rows_sorted rows) = Inr data_lines"
proof -
  from assms have "list_all (\<lambda>r. \<exists>s. md_line r = Inr s) (rows_sorted rows)"
    unfolding md_line_Inr_iff list_all_rows_sorted .
  then show ?thesis by (rule emap_all_Inr)
qed

lemma md_lines_overflow:
  assumes "\<not> list_all sizes_in_range rows"
  shows "emap md_line (rows_sorted rows) = Inl OverflowError"
proof -
  have "list_all (\<lambda>r. (\<exists>s. md_line r = Inr s) \<or> md_line r = Inl OverflowError) (rows_sorted rows)"
    using md_line_returns md_line_overflow by (auto simp: list_all_iff)
  moreover from assms have "\<not> list_all (\<lambda>r. \<exists>s. md_line r = Inr s) (rows_sorted rows)"
    unfolding md_line_Inr_iff list_all_rows_sorted .
  ultimately show ?thesis by (rule emap_some_Inl)
qed

lemma write_markdown_lines:
  assumes "emap md_line (rows_sorted rows) = Inr data_lines"
  shows "write_markdown rows p w =
      Inr (w\<lparr> files := files w @ [(p, join [CHR 0x0A]
                     ((''| '' @ join '' | '' md_hdr @ '' |'')
                      # (''|'' @ join ''|'' (replicate (length md_hdr) ''---'') @ ''|'')
                      # data_lines))],
              out := out w @ [''[ok] wrote '' @ p] \<rparr>)"
  unfolding write_markdown_def Let_def assms ebind_Inr ..

lemma write_markdown_returns:
  assumes "list_all sizes_in_range rows"
  shows "\<exists>body. write_markdown rows p w =
      Inr (w\<lparr> files := files w @ [(p, body)], out := out w @ [''[ok] wrote '' @ p] \<rparr>)"
proof -
  from md_lines_returns [OF assms]
  obtain data_lines where "emap md_line (rows_sorted rows) = Inr data_lines" by blast
  from write_markdown_lines [OF this, of p w] show ?thesis by (rule exI)
qed

lemma write_markdown_overflow:
  assumes "\<not> list_all sizes_in_range rows"
  shows "write_markdown rows p w = Inl OverflowError"
  unfolding write_markdown_def md_lines_overflow [OF assms] by simp

lemma load_loop_concat:
  "load_loop E paths (rows, errs) =
     (rows @ concat (map (accepted_records E) paths), errs @ concat (map (skip_warnings E) paths))"
proof (induction paths arbitrary: rows errs)
  case Nil
  then show ?case by simp
next
  case (Cons path paths)
  show ?case
    by (cases "json_load E path")
       (simp_all add: Cons.IH accepted_records_def skip_warnings_def Let_def split: pyval.splits)
qed

subsection \<open>Evaluations\<close>

lemma derive_empty: "derive B (PDict []) = Inr zero_metric"
  by (simp add: derive_def ebind_def py_or_def dict_values_def py_sum_def
        startswith_def float_of_int_def float_limit_def zero_metric_def)

lemma derive_example_fields: "derive B (PDict example_fields) = Inr example_metric"
  by (simp add: derive_def example_fields_def example_metric_def ebind_def py_or_def
        dict_values_def py_sum_def startswith_def float_of_int_def float_limit_def)

lemma derive_aggregate_fields:
  "derive B (PDict aggregate_fields) = Inr (zero_metric\<lparr> t_total_ms := 7, t_norm_ms := 1 / 2000 \<rparr>)"
  by (simp add: derive_def aggregate_fields_def zero_metric_def ebind_def py_or_def
        dict_values_def py_sum_def startswith_def float_of_int_def float_limit_def)

lemma derive_shadowed_fields:
  "derive B (PDict shadowed_fields) = Inr (zero_metric\<lparr> Ncols := 4, rho := 5 \<rparr>)"
  by (simp add: derive_def shadowed_fields_def zero_metric_def ebind_def py_or_def
        dict_values_def py_sum_def startswith_def float_of_int_def float_limit_def)

lemma derive_huge_fields: "derive B (PDict huge_fields) = Inr huge_metric"
  by (simp add: derive_def huge_fields_def huge_metric_def zero_metric_def ebind_def py_or_def
        dict_values_def py_sum_def startswith_def float_of_int_def float_limit_def)

lemma huge_metric_out_of_range: "\<not> list_all sizes_in_range [huge_metric]"
  by (simp add: sizes_in_range_def bytes_in_range_def huge_metric_def zero_metric_def
        float_limit_def)

lemma zero_metric_in_range: "list_all sizes_in_range [zero_metric]"
  by (simp add: sizes_in_range_def bytes_in_range_def zero_metric_def float_limit_def)

lemma raw_record_example: "raw_record (PDict example_fields)"
  by (simp add: example_fields_def param_names_def absent_or_def float_limit_def)

section \<open>The claims\<close>

subsection \<open>The byte formatter\<close>

text \<open>
  Claim C1 asks that the byte formatter map 1024 to \<^verbatim>\<open>1.0 KiB\<close> and 1048576 to
  \<^verbatim>\<open>1.0 MiB\<close>, the value scaled to the unit it selects. The code selects the unit as
  claimed, but divides the already scaled value by 1024 once more in the \<^verbatim>\<open>return\<close>:
  1024 bytes come out as \<^verbatim>\<open>0.0 KiB\<close> and 1048576 bytes as \<^verbatim>\<open>0.0 MiB\<close>.
\<close>

theorem fmt_bytes_divides_twice:
  "fmt_bytes 1024 = Inr (Some ''0.0 KiB'') \<and> fmt_bytes 1048576 = Inr (Some ''0.0 MiB'')"
  by (simp add: fmt_bytes_def fmt_fixed_def round_half_even_def round53_def float_limit_def)

subsection \<open>The example scenario\<close>

text \<open>
  Claim C2: for the record of the example scenario the metric deriver returns a record
  with \<open>t_total_ms = 2.5\<close>, \<open>t_norm_ms = 2.0\<close>, \<open>size_fpar_total = 150\<close>,
  \<open>size_witness_total = 15\<close>, \<open>size_total_bytes = 165\<close> and \<open>ok_all\<close> true (the other
  fields are as computed below).
\<close>

theorem derive_example_row:
  "derive B example_row =
     Inr \<lparr> Ncols = 4, ell = 2, ellp = 1, rho = 3, eta = 1, theta = 1,
           ok_lin = True, ok_eq4 = True, ok_sum = True, ok_all = True,
           t_total_ms = 5 / 2, t_norm_ms = 2,
           size_fpar_core = 100, size_fpar_norm = 50, size_fpar_total = 150,
           size_witness_norm = 15, size_witness_total = 15, size_total_bytes = 165 \<rparr>"
  by (simp add: derive_def example_row_def example_fields_def ebind_def py_or_def
        dict_values_def py_sum_def startswith_def float_of_int_def float_limit_def)

subsection \<open>Parameter resolution\<close>

lemma derived_parameters:
  assumes "derive B (PDict r) = Inr m"
  shows "py_int B (param_spec r ''NCols'') = Inr (Ncols m)
       \<and> py_int B (param_spec r ''Ell'') = Inr (ell m)
       \<and> py_int B (param_spec r ''EllPrime'') = Inr (ellp m)
       \<and> py_int B (param_spec r ''Rho'') = Inr (rho m)
       \<and> py_int B (param_spec r ''Eta'') = Inr (eta m)
       \<and> py_int B (param_spec r ''Theta'') = Inr (theta m)"
  using assms unfolding derive_def Let_def
  apply (simp add: get_opt_param_spec)
  apply (elim ebindE)
  apply auto
  done

text \<open>
  Claim C3: for every raw record and each of the six parameters, \<^verbatim>\<open>get_opt\<close> resolves the
  parameter to the value under \<^verbatim>\<open>Opts\<close> when \<^verbatim>\<open>Opts\<close> is a mapping with that key, otherwise
  to the top-level field of that name when present, otherwise to zero (\<open>param_spec\<close>);
  a raw record derives, and whenever a record derives, each derived parameter is the
  resolved value coerced to an integer. So a parameter carried only at top level derives
  to the same value as the parameter carried inside \<^verbatim>\<open>Opts\<close>.
\<close>

theorem derive_parameters:
  "get_opt (case map_of r ''Opts'' of None \<Rightarrow> PDict [] | Some v \<Rightarrow> v) (PDict r) name
     = Inr (param_spec r name)
   \<and> (raw_record (PDict r) \<longrightarrow> (\<exists>m. derive B (PDict r) = Inr m))
   \<and> (derive B (PDict r) = Inr m \<longrightarrow>
        py_int B (param_spec r ''NCols'') = Inr (Ncols m)
        \<and> py_int B (param_spec r ''Ell'') = Inr (ell m)
        \<and> py_int B (param_spec r ''EllPrime'') = Inr (ellp m)
        \<and> py_int B (param_spec r ''Rho'') = Inr (rho m)
        \<and> py_int B (param_spec r ''Eta'') = Inr (eta m)
        \<and> py_int B (param_spec r ''Theta'') = Inr (theta m))"
  using get_opt_param_spec [of r name] raw_record_derives [of r B] derived_parameters [of B r m]
  by blast

text \<open>
  At a record with \<^verbatim>\<open>NCols\<close> both inside \<^verbatim>\<open>Opts\<close> (4) and at top level (9), and \<^verbatim>\<open>Rho\<close> at top
  level only (5): \<^verbatim>\<open>Opts\<close> wins for \<^verbatim>\<open>NCols\<close>, the top-level field gives \<^verbatim>\<open>Rho\<close>, and an
  absent parameter is zero.
\<close>

theorem derive_parameters_witness:
  "raw_record (PDict shadowed_fields)
   \<and> derive plain_builtins (PDict shadowed_fields) = Inr (zero_metric\<lparr> Ncols := 4, rho := 5 \<rparr>)
   \<and> param_spec shadowed_fields ''NCols'' = PInt 4
   \<and> param_spec shadowed_fields ''Rho'' = PInt 5
   \<and> param_spec shadowed_fields ''Eta'' = PInt 0
   \<and> py_int plain_builtins (param_spec shadowed_fields ''NCols'')
       = Inr (Ncols (zero_metric\<lparr> Ncols := 4, rho := 5 \<rparr>))
   \<and> py_int plain_builtins (param_spec shadowed_fields ''Rho'')
       = Inr (rho (zero_metric\<lparr> Ncols := 4, rho := 5 \<rparr>))
   \<and> py_int plain_builtins (param_spec shadowed_fields ''Eta'')
       = Inr (eta (zero_metric\<lparr> Ncols := 4, rho := 5 \<rparr>))"
proof -
  have w: "raw_record (PDict shadowed_fields)"
    by (simp add: shadowed_fields_def param_names_def absent_or_def)
  have h: "derive plain_builtins (PDict shadowed_fields) = Inr (zero_metric\<lparr> Ncols := 4, rho := 5 \<rparr>)"
    by (rule derive_shadowed_fields)
  have p: "param_spec shadowed_fields ''NCols'' = PInt 4"
    "param_spec shadowed_fields ''Rho'' = PInt 5"
    "param_spec shadowed_fields ''Eta'' = PInt 0"
    by (simp_all add: param_spec_def top_level_def shadowed_fields_def)
  from derive_parameters
         [of shadowed_fields "''NCols''" plain_builtins "zero_metric\<lparr> Ncols := 4, rho := 5 \<rparr>"]
       w h p
  show ?thesis by blast
qed

subsection \<open>Row order of the renderers\<close>

text \<open>
  Claim C4: for every sequence of metric records, the Markdown renderer and the CSV
  renderer both emit their data rows in the order of \<open>rows_sorted\<close>: the CSV rows after the
  header are the sorted records in that order, and the \<open>i\<close>-th data line of the Markdown
  file renders the \<open>i\<close>-th sorted record. The Markdown renderer returns exactly when
  \<^verbatim>\<open>fmt_bytes\<close> can format every size (otherwise it raises \<^verbatim>\<open>OverflowError\<close> before it opens
  the file). The order is non-decreasing in the lexicographic order of (Ncols, ell, ellp,
  rho, eta, theta), it is a rearrangement of the input, and records with equal keys keep
  their input order.
\<close>

theorem renderers_sorted:
  "(list_all sizes_in_range rows \<longrightarrow>
      (\<exists>data_lines.
         map md_line (rows_sorted rows) = map Inr data_lines
         \<and> write_markdown rows md_path w =
             Inr (w\<lparr> files := files w @ [(md_path, join [CHR 0x0A]
                        ((''| '' @ join '' | '' md_hdr @ '' |'')
                         # (''|'' @ join ''|'' (replicate (length md_hdr) ''---'') @ ''|'')
                         # data_lines))],
                      out := out w @ [''[ok] wrote '' @ md_path] \<rparr>)))
   \<and> (\<not> list_all sizes_in_range rows \<longrightarrow> write_markdown rows md_path w = Inl OverflowError)
   \<and> write_csv B rows csv_path w =
          w\<lparr> files := files w @ [(csv_path, concat (map csv_line
                     (csv_hdr # map (csv_rec B) (rows_sorted rows))))],
              out := out w @ [''[ok] wrote '' @ csv_path] \<rparr>
   \<and> sorted_wrt key_le (rows_sorted rows)
   \<and> mset (rows_sorted rows) = mset rows
   \<and> (\<forall>k. filter (\<lambda>r. row_key r = k) (rows_sorted rows) = filter (\<lambda>r. row_key r = k) rows)"
proof -
  have md: "\<exists>data_lines.
         map md_line (rows_sorted rows) = map Inr data_lines
         \<and> write_markdown rows md_path w =
             Inr (w\<lparr> files := files w @ [(md_path, join [CHR 0x0A]
                        ((''| '' @ join '' | '' md_hdr @ '' |'')
                         # (''|'' @ join ''|'' (replicate (length md_hdr) ''---'') @ ''|'')
                         # data_lines))],
                      out := out w @ [''[ok] wrote '' @ md_path] \<rparr>)"
    if "list_all sizes_in_range rows"
  proof -
    from md_lines_returns [OF that]
    obtain data_lines where dl: "emap md_line (rows_sorted rows) = Inr data_lines" by blast
    from emap_Inr_map [OF dl] write_markdown_lines [OF dl, of md_path w] show ?thesis by blast
  qed
  have ov: "write_markdown rows md_path w = Inl OverflowError"
    if "\<not> list_all sizes_in_range rows"
    using that by (rule write_markdown_overflow)
  have srt: "sorted_wrt key_le (rows_sorted rows)"
  proof -
    have "sorted (map row_key (sort_key row_key rows))" by (rule sorted_sort_key)
    then show ?thesis
      unfolding rows_sorted_def sorted_map by (simp add: key_le_row_key [abs_def])
  qed
  have ms: "mset (rows_sorted rows) = mset rows" by (simp add: rows_sorted_def)
  have st: "\<forall>k. filter (\<lambda>r. row_key r = k) (rows_sorted rows) = filter (\<lambda>r. row_key r = k) rows"
    by (simp add: rows_sorted_def sort_key_stable)
  have cs: "write_csv B rows csv_path w =
          w\<lparr> files := files w @ [(csv_path, concat (map csv_line
                     (csv_hdr # map (csv_rec B) (rows_sorted rows))))],
              out := out w @ [''[ok] wrote '' @ csv_path] \<rparr>"
    by (simp add: write_csv_def)
  from md ov cs srt ms st show ?thesis by blast
qed

text \<open>
  At two records given in descending key order, which both renderers emit in ascending
  order, and at a record with a size of \<open>2^1100\<close>, where the Markdown renderer raises.
\<close>

theorem renderers_sorted_witness:
  "list_all sizes_in_range two_rows
   \<and> rows_sorted two_rows = rev two_rows
   \<and> (\<exists>data_lines.
         map md_line (rev two_rows) = map Inr data_lines
         \<and> write_markdown two_rows ''summary.md'' \<lparr> out = [], err = [], files = [] \<rparr> =
             Inr \<lparr> out = [''[ok] wrote summary.md''], err = [],
                   files = [(''summary.md'', join [CHR 0x0A]
                        ((''| '' @ join '' | '' md_hdr @ '' |'')
                         # (''|'' @ join ''|'' (replicate (length md_hdr) ''---'') @ ''|'')
                         # data_lines))] \<rparr>)
   \<and> \<not> list_all sizes_in_range [huge_metric]
   \<and> write_markdown [huge_metric] ''summary.md'' \<lparr> out = [], err = [], files = [] \<rparr>
       = Inl OverflowError"
proof -
  have a: "list_all sizes_in_range two_rows"
    by (simp add: two_rows_def sizes_in_range_def bytes_in_range_def zero_metric_def
          float_limit_def)
  have b: "rows_sorted two_rows = rev two_rows"
    by (simp add: two_rows_def rows_sorted_def row_key_def zero_metric_def)
  note c = huge_metric_out_of_range
  from renderers_sorted
         [of two_rows "''summary.md''" "\<lparr> out = [], err = [], files = [] \<rparr>" plain_builtins
             "''summary.csv''"]
       a b
  have r1: "\<exists>data_lines.
         map md_line (rev two_rows) = map Inr data_lines
         \<and> write_markdown two_rows ''summary.md'' \<lparr> out = [], err = [], files = [] \<rparr> =
             Inr \<lparr> out = [''[ok] wrote summary.md''], err = [],
                   files = [(''summary.md'', join [CHR 0x0A]
                        ((''| '' @ join '' | '' md_hdr @ '' |'')
                         # (''|'' @ join ''|'' (replicate (length md_hdr) ''---'') @ ''|'')
                         # data_lines))] \<rparr>"
    by simp
  from renderers_sorted
         [of "[huge_metric]" "''summary.md''" "\<lparr> out = [], err = [], files = [] \<rparr>"
             plain_builtins "''summary.csv''"]
       c
  have r2: "write_markdown [huge_metric] ''summary.md'' \<lparr> out = [], err = [], files = [] \<rparr>
       = Inl OverflowError"
    by blast
  from a b c r1 r2 show ?thesis by blast
qed

subsection \<open>Durations\<close>

lemma derived_timings:
  assumes "derive B (PDict r) = Inr m"
  shows "(case map_of (the_group r ''TimingsUS'') ''__total__'' of
            Some v \<Rightarrow> (\<exists>x. py_float B v = Inr x \<and> t_total_ms m = x / 1000)
          | None \<Rightarrow> t_total_ms m = sum_list (map (num_rat \<circ> snd) (the_group r ''TimingsUS'')) / 1000)
       \<and> (case map_of (the_group r ''TimingsUS'') ''buildFparLinfChain'' of
            Some v \<Rightarrow> (\<exists>x. py_float B v = Inr x \<and> t_norm_ms m = x / 1000)
          | None \<Rightarrow> t_norm_ms m = 0)"
proof -
  let ?ts = "the_group r ''TimingsUS''"
  from assms obtain total0 total_us norm_v t_norm total_f where
    g1: "dict_get (py_or (case map_of r ''TimingsUS'' of None \<Rightarrow> PDict [] | Some v \<Rightarrow> v) (PDict []))
       ''__total__'' PNone = Inr total0"
    and g2: "(if total0 = PNone
      then ebind (dict_values (py_or (case map_of r ''TimingsUS'' of None \<Rightarrow> PDict [] | Some v \<Rightarrow> v) (PDict []))) py_sum
      else Inr total0) = Inr total_us"
    and g3: "dict_get (py_or (case map_of r ''TimingsUS'' of None \<Rightarrow> PDict [] | Some v \<Rightarrow> v) (PDict []))
       ''buildFparLinfChain'' (PFloat 0) = Inr norm_v"
    and norm: "py_float B norm_v = Inr t_norm"
    and totf: "py_float B total_us = Inr total_f"
    and m1: "t_total_ms m = total_f / 1000" and m2: "t_norm_ms m = t_norm / 1000"
    by (rule derive_timing_facts)
  note grp = group_is_dict [OF g1]
  from g1 have t0: "total0 = (case map_of ?ts ''__total__'' of None \<Rightarrow> PNone | Some v \<Rightarrow> v)"
    by (simp add: grp)
  from g3 have nv: "norm_v = (case map_of ?ts ''buildFparLinfChain'' of None \<Rightarrow> PFloat 0 | Some v \<Rightarrow> v)"
    by (simp add: grp)
  from g2 have tot: "(if total0 = PNone then py_sum (map snd ?ts) else Inr total0) = Inr total_us"
    by (simp add: grp dict_values_def split: if_splits)
  have total: "case map_of ?ts ''__total__'' of
            Some v \<Rightarrow> (\<exists>x. py_float B v = Inr x \<and> t_total_ms m = x / 1000)
          | None \<Rightarrow> t_total_ms m = sum_list (map (num_rat \<circ> snd) ?ts) / 1000"
  proof (cases "map_of ?ts ''__total__''")
    case None
    with tot t0 have s: "py_sum (map snd ?ts) = Inr total_us" by simp
    from py_sum_Inr [OF s] py_float_acc [OF totf] have "total_f = sum_list (map num_rat (map snd ?ts))"
      by simp
    with None m1 show ?thesis by (simp add: comp_def)
  next
    case (Some v)
    show ?thesis
    proof (cases "v = PNone")
      case True
      with Some tot t0 have s: "py_sum (map snd ?ts) = Inr total_us" by simp
      from py_sum_Inr [OF s] have "list_all is_num (map snd ?ts)" by simp
      from map_of_is_num [OF this Some] True show ?thesis by simp
    next
      case False
      with Some tot t0 have "total_us = v" by simp
      with Some totf m1 show ?thesis by simp
    qed
  qed
  have "case map_of ?ts ''buildFparLinfChain'' of
            Some v \<Rightarrow> (\<exists>x. py_float B v = Inr x \<and> t_norm_ms m = x / 1000)
          | None \<Rightarrow> t_norm_ms m = 0"
    using norm m2 nv by (auto split: option.splits)
  with total show ?thesis by simp
qed


text \<open>
  Claim C5: a raw record derives, and whenever a record derives, \<open>t_total_ms\<close> is the value
  under the aggregate key \<^verbatim>\<open>__total__\<close> of \<^verbatim>\<open>TimingsUS\<close>, as a float, divided by 1000 when the
  key is present, and otherwise the sum of all values of \<^verbatim>\<open>TimingsUS\<close> divided by 1000;
  \<open>t_norm_ms\<close> is the \<^verbatim>\<open>buildFparLinfChain\<close> entry, as a float, divided by 1000, and zero
  when the entry or \<^verbatim>\<open>TimingsUS\<close> is absent.
\<close>

theorem derive_timings:
  "(raw_record (PDict r) \<longrightarrow> (\<exists>m. derive B (PDict r) = Inr m))
   \<and> (derive B (PDict r) = Inr m \<longrightarrow>
        (case map_of (the_group r ''TimingsUS'') ''__total__'' of
           Some v \<Rightarrow> (\<exists>x. py_float B v = Inr x \<and> t_total_ms m = x / 1000)
         | None \<Rightarrow> t_total_ms m = sum_list (map (num_rat \<circ> snd) (the_group r ''TimingsUS'')) / 1000)
        \<and> (case map_of (the_group r ''TimingsUS'') ''buildFparLinfChain'' of
             Some v \<Rightarrow> (\<exists>x. py_float B v = Inr x \<and> t_norm_ms m = x / 1000)
           | None \<Rightarrow> t_norm_ms m = 0))"
  using raw_record_derives [of r B] derived_timings [of B r m] by blast

text \<open>
  At the example record (no aggregate key: 2000 + 500 microseconds) and at a record with
  the aggregate key 7000 beside other entries, and at the empty record.
\<close>

theorem derive_timings_witness:
  "raw_record (PDict example_fields)
   \<and> derive plain_builtins (PDict example_fields) = Inr example_metric
   \<and> map_of (the_group example_fields ''TimingsUS'') ''__total__'' = None
   \<and> t_total_ms example_metric
       = sum_list (map (num_rat \<circ> snd) (the_group example_fields ''TimingsUS'')) / 1000
   \<and> t_total_ms example_metric = 5 / 2
   \<and> derive plain_builtins (PDict aggregate_fields)
       = Inr (zero_metric\<lparr> t_total_ms := 7, t_norm_ms := 1 / 2000 \<rparr>)
   \<and> map_of (the_group aggregate_fields ''TimingsUS'') ''__total__'' = Some (PInt 7000)
   \<and> (\<exists>x. py_float plain_builtins (PInt 7000) = Inr x
          \<and> t_total_ms (zero_metric\<lparr> t_total_ms := 7, t_norm_ms := 1 / 2000 \<rparr>) = x / 1000)
   \<and> derive plain_builtins (PDict []) = Inr zero_metric
   \<and> t_norm_ms zero_metric = 0"
proof -
  have h1: "derive plain_builtins (PDict example_fields) = Inr example_metric"
    by (rule derive_example_fields)
  have h2: "derive plain_builtins (PDict aggregate_fields)
       = Inr (zero_metric\<lparr> t_total_ms := 7, t_norm_ms := 1 / 2000 \<rparr>)"
    by (rule derive_aggregate_fields)
  have h3: "derive plain_builtins (PDict []) = Inr zero_metric"
    by (rule derive_empty)
  have g1: "map_of (the_group example_fields ''TimingsUS'') ''__total__'' = None"
    by (simp add: the_group_def example_fields_def)
  have g2: "map_of (the_group aggregate_fields ''TimingsUS'') ''__total__'' = Some (PInt 7000)"
    by (simp add: the_group_def aggregate_fields_def)
  have g3: "map_of (the_group [] ''TimingsUS'') ''buildFparLinfChain'' = None"
    by (simp add: the_group_def)
  have v: "t_total_ms example_metric = 5 / 2" by (simp add: example_metric_def)
  from derive_timings [of example_fields plain_builtins example_metric] h1 g1
  have r1: "t_total_ms example_metric
       = sum_list (map (num_rat \<circ> snd) (the_group example_fields ''TimingsUS'')) / 1000"
    by simp
  from derive_timings
         [of aggregate_fields plain_builtins "zero_metric\<lparr> t_total_ms := 7, t_norm_ms := 1 / 2000 \<rparr>"]
       h2 g2
  have r2: "\<exists>x. py_float plain_builtins (PInt 7000) = Inr x
          \<and> t_total_ms (zero_metric\<lparr> t_total_ms := 7, t_norm_ms := 1 / 2000 \<rparr>) = x / 1000"
    by simp
  from derive_timings [of "[]" plain_builtins zero_metric] h3 g3 have r3: "t_norm_ms zero_metric = 0" by simp
  from raw_record_example h1 h2 h3 g1 g2 v r1 r2 r3 show ?thesis by blast
qed

subsection \<open>Sizes\<close>

lemma derived_sizes:
  assumes "derive B (PDict r) = Inr m"
  shows "\<exists>cs. coerce_sizes B (the_group r ''SizesB'') = Inr cs
       \<and> size_fpar_core m = entry cs ''piop/Fpar/core''
       \<and> size_fpar_norm m = entry cs ''piop/Fpar/linf_chain''
       \<and> size_fpar_total m = prefix_sum cs ''piop/Fpar/''
       \<and> size_witness_norm m = entry cs ''piop/witness/linf_chain/M'' + entry cs ''piop/witness/linf_chain/D''
       \<and> size_witness_total m = prefix_sum cs ''piop/witness/''
       \<and> size_total_bytes m = sum_list (map snd cs)"
proof -
  let ?S = "py_or (case map_of r ''SizesB'' of None \<Rightarrow> PDict [] | Some v \<Rightarrow> v) (PDict [])"
  let ?ss = "the_group r ''SizesB''"
  from assms obtain vals all_ints items fpar_ints core_v fnorm_v wit_ints m_v d_v wit_m wit_d where
    f1: "dict_values ?S = Inr vals"
    and f2: "emap (py_int B) vals = Inr all_ints"
    and f3: "dict_items ?S = Inr items"
    and f4: "emap (py_int B) (map snd (filter (\<lambda>(k, v). startswith k ''piop/Fpar/'') items)) = Inr fpar_ints"
    and f5: "dict_get ?S ''piop/Fpar/core'' (PInt 0) = Inr core_v"
    and f6: "dict_get ?S ''piop/Fpar/linf_chain'' (PInt 0) = Inr fnorm_v"
    and f7: "emap (py_int B) (map snd (filter (\<lambda>(k, v). startswith k ''piop/witness/'') items)) = Inr wit_ints"
    and f8: "dict_get ?S ''piop/witness/linf_chain/M'' (PInt 0) = Inr m_v"
    and f9: "dict_get ?S ''piop/witness/linf_chain/D'' (PInt 0) = Inr d_v"
    and i1: "py_int B core_v = Inr (size_fpar_core m)"
    and i2: "py_int B fnorm_v = Inr (size_fpar_norm m)"
    and i3: "py_int B m_v = Inr wit_m" and i4: "py_int B d_v = Inr wit_d"
    and s1: "size_witness_norm m = wit_m + wit_d"
    and s2: "size_total_bytes m = sum_list all_ints"
    and s3: "size_fpar_total m = sum_list fpar_ints"
    and s4: "size_witness_total m = sum_list wit_ints"
    by (rule derive_size_facts)
  note grp = group_is_dict [OF f5]
  from f1 have vals: "vals = map snd ?ss" by (simp add: grp dict_values_def)
  from f3 have items: "items = ?ss" by (simp add: grp)
  from coerce_sizes_exists [of B ?ss all_ints] f2 vals
  obtain cs where cs: "coerce_sizes B ?ss = Inr cs" and all: "map snd cs = all_ints" by auto
  from f5 i1 coerce_sizes_entry [OF cs, of "''piop/Fpar/core''"]
  have core: "size_fpar_core m = entry cs ''piop/Fpar/core''" by (simp add: grp)
  from f6 i2 coerce_sizes_entry [OF cs, of "''piop/Fpar/linf_chain''"]
  have fnorm: "size_fpar_norm m = entry cs ''piop/Fpar/linf_chain''" by (simp add: grp)
  from f8 i3 coerce_sizes_entry [OF cs, of "''piop/witness/linf_chain/M''"]
  have wm: "wit_m = entry cs ''piop/witness/linf_chain/M''" by (simp add: grp)
  from f9 i4 coerce_sizes_entry [OF cs, of "''piop/witness/linf_chain/D''"]
  have wd: "wit_d = entry cs ''piop/witness/linf_chain/D''" by (simp add: grp)
  from f4 items coerce_sizes_filter [OF cs, of "\<lambda>k. startswith k ''piop/Fpar/''"] s3
  have ft: "size_fpar_total m = prefix_sum cs ''piop/Fpar/''" by (simp add: prefix_sum_def)
  from f7 items coerce_sizes_filter [OF cs, of "\<lambda>k. startswith k ''piop/witness/''"] s4
  have wt: "size_witness_total m = prefix_sum cs ''piop/witness/''" by (simp add: prefix_sum_def)
  from cs core fnorm ft wm wd s1 wt s2 all show ?thesis by simp
qed


text \<open>
  Claim C6: a raw record derives, and whenever a record derives, every value of \<^verbatim>\<open>SizesB\<close>
  coerces to an integer, and over the coerced mapping: \<open>size_fpar_core\<close> is the entry at
  \<^verbatim>\<open>piop/Fpar/core\<close> and \<open>size_fpar_norm\<close> the entry at \<^verbatim>\<open>piop/Fpar/linf_chain\<close> (zero when
  absent); \<open>size_fpar_total\<close> is the sum of the entries whose key starts with
  \<^verbatim>\<open>piop/Fpar/\<close>; \<open>size_witness_norm\<close> is the sum of the entries at
  \<^verbatim>\<open>piop/witness/linf_chain/M\<close> and \<^verbatim>\<open>piop/witness/linf_chain/D\<close>; \<open>size_witness_total\<close> is the
  sum of the entries whose key starts with \<^verbatim>\<open>piop/witness/\<close>; \<open>size_total_bytes\<close> is the sum
  of all entries.
\<close>

theorem derive_sizes:
  "(raw_record (PDict r) \<longrightarrow> (\<exists>m. derive B (PDict r) = Inr m))
   \<and> (derive B (PDict r) = Inr m \<longrightarrow>
        (\<exists>cs. coerce_sizes B (the_group r ''SizesB'') = Inr cs
           \<and> size_fpar_core m = entry cs ''piop/Fpar/core''
           \<and> size_fpar_norm m = entry cs ''piop/Fpar/linf_chain''
           \<and> size_fpar_total m = prefix_sum cs ''piop/Fpar/''
           \<and> size_witness_norm m
               = entry cs ''piop/witness/linf_chain/M'' + entry cs ''piop/witness/linf_chain/D''
           \<and> size_witness_total m = prefix_sum cs ''piop/witness/''
           \<and> size_total_bytes m = sum_list (map snd cs)))"
  using raw_record_derives [of r B] derived_sizes [of B r m] by blast

text \<open>At the example record, whose four sizes are 100, 50, 10 and 5.\<close>

theorem derive_sizes_witness:
  "raw_record (PDict example_fields)
   \<and> derive plain_builtins (PDict example_fields) = Inr example_metric
   \<and> coerce_sizes plain_builtins (the_group example_fields ''SizesB'')
       = Inr [(''piop/Fpar/core'', 100), (''piop/Fpar/linf_chain'', 50),
              (''piop/witness/linf_chain/M'', 10), (''piop/witness/linf_chain/D'', 5)]
   \<and> (\<exists>cs. coerce_sizes plain_builtins (the_group example_fields ''SizesB'') = Inr cs
       \<and> size_fpar_core example_metric = entry cs ''piop/Fpar/core''
       \<and> size_fpar_norm example_metric = entry cs ''piop/Fpar/linf_chain''
       \<and> size_fpar_total example_metric = prefix_sum cs ''piop/Fpar/''
       \<and> size_witness_norm example_metric
           = entry cs ''piop/witness/linf_chain/M'' + entry cs ''piop/witness/linf_chain/D''
       \<and> size_witness_total example_metric = prefix_sum cs ''piop/witness/''
       \<and> size_total_bytes example_metric = sum_list (map snd cs))"
proof -
  have h: "derive plain_builtins (PDict example_fields) = Inr example_metric"
    by (rule derive_example_fields)
  have c: "coerce_sizes plain_builtins (the_group example_fields ''SizesB'')
       = Inr [(''piop/Fpar/core'', 100), (''piop/Fpar/linf_chain'', 50),
              (''piop/witness/linf_chain/M'', 10), (''piop/witness/linf_chain/D'', 5)]"
    by (simp add: the_group_def example_fields_def coerce_sizes_def)
  from derive_sizes [of example_fields plain_builtins example_metric] raw_record_example h c
  show ?thesis by blast
qed

subsection \<open>The outcome of main\<close>

text \<open>
  Claim C7 says that both output files are written whenever at least one record is
  collected. With one input file holding the list \<^verbatim>\<open>[1]\<close> a record is collected, its
  derivation raises \<^verbatim>\<open>AttributeError\<close> (an integer has no \<^verbatim>\<open>get\<close>), nothing catches it, and
  no file is written.
\<close>

theorem main_unwritten_counterexample:
  "fst (load_rows (one_file_env (PList [PInt 1])) (inp default_args)) = [PInt 1]
   \<and> main plain_builtins (one_file_env (PList [PInt 1])) default_args
       = (Uncaught AttributeError, \<lparr> out = [], err = [], files = [] \<rparr>)"
  by (simp add: main_def load_rows_def one_file_env_def default_args_def derive_def)

text \<open>
  Claim C7, amended: if no record is collected, the program adds the fatal diagnostic to
  the error stream after the warnings of the loader and exits with status 1, with no
  file written and nothing on standard output; if at least one record is collected,
  every collected record derives and \<^verbatim>\<open>fmt_bytes\<close> can format every size of every derived
  record, it exits with status 0 after writing the Markdown file and then the CSV file;
  if the derivation of a collected record raises, or \<^verbatim>\<open>fmt_bytes\<close> raises \<^verbatim>\<open>OverflowError\<close>
  on a size, the exception ends the program and no file is written.
\<close>

theorem main_outcomes:
  "(fst (load_rows E (inp a)) = [] \<longrightarrow>
      main B E a =
        (Exit 1, \<lparr> out = [],
                   err = snd (load_rows E (inp a)) @ [''[err] no JSON files found in '' @ inp a],
                   files = [] \<rparr>))
   \<and> (fst (load_rows E (inp a)) \<noteq> [] \<longrightarrow>
        emap (derive B) (fst (load_rows E (inp a))) = Inr derived \<longrightarrow>
        list_all sizes_in_range derived \<longrightarrow>
          fst (main B E a) = Exit 0
          \<and> map fst (files (snd (main B E a))) = [md a, csv a]
          \<and> out (snd (main B E a)) = [''[ok] wrote '' @ md a, ''[ok] wrote '' @ csv a]
          \<and> err (snd (main B E a)) = snd (load_rows E (inp a)))
   \<and> (emap (derive B) (fst (load_rows E (inp a))) = Inl e \<longrightarrow>
        main B E a = (Uncaught e, \<lparr> out = [], err = snd (load_rows E (inp a)), files = [] \<rparr>))
   \<and> (emap (derive B) (fst (load_rows E (inp a))) = Inr derived \<longrightarrow>
        \<not> list_all sizes_in_range derived \<longrightarrow>
        main B E a
          = (Uncaught OverflowError, \<lparr> out = [], err = snd (load_rows E (inp a)), files = [] \<rparr>))"
proof -
  obtain rows warns where lr: "load_rows E (inp a) = (rows, warns)" by (cases "load_rows E (inp a)")
  have empty: "rows = [] \<Longrightarrow> main B E a =
        (Exit 1, \<lparr> out = [], err = warns @ [''[err] no JSON files found in '' @ inp a], files = [] \<rparr>)"
    by (simp add: main_def lr)
  have ok: "fst (main B E a) = Exit 0
          \<and> map fst (files (snd (main B E a))) = [md a, csv a]
          \<and> out (snd (main B E a)) = [''[ok] wrote '' @ md a, ''[ok] wrote '' @ csv a]
          \<and> err (snd (main B E a)) = warns"
    if ne: "rows \<noteq> []" and d: "emap (derive B) rows = Inr derived"
      and rng: "list_all sizes_in_range derived"
  proof -
    from write_markdown_returns [OF rng, of "md a" "\<lparr> out = [], err = warns, files = [] \<rparr>"]
    obtain body where "write_markdown derived (md a) \<lparr> out = [], err = warns, files = [] \<rparr>
        = Inr \<lparr> out = [''[ok] wrote '' @ md a], err = warns, files = [(md a, body)] \<rparr>"
      by auto
    with ne d show ?thesis by (simp add: main_def lr write_csv_def)
  qed
  have bad: "main B E a = (Uncaught e, \<lparr> out = [], err = warns, files = [] \<rparr>)"
    if d: "emap (derive B) rows = Inl e"
  proof -
    from d have "rows \<noteq> []" by auto
    with d show ?thesis by (simp add: main_def lr)
  qed
  have ovf: "main B E a = (Uncaught OverflowError, \<lparr> out = [], err = warns, files = [] \<rparr>)"
    if d: "emap (derive B) rows = Inr derived" and rng: "\<not> list_all sizes_in_range derived"
  proof -
    from rng have "derived \<noteq> []" by auto
    with d have ne: "rows \<noteq> []" by auto
    from write_markdown_overflow [OF rng, of "md a" "\<lparr> out = [], err = warns, files = [] \<rparr>"]
      ne d
    show ?thesis by (simp add: main_def lr)
  qed
  from empty ok bad ovf show ?thesis by (simp add: lr)
qed

text \<open>
  With the single file holding \<^verbatim>\<open>{}\<close> both files are written; holding \<^verbatim>\<open>1\<close> it is skipped
  and the program exits with 1; holding \<^verbatim>\<open>[1]\<close> the derivation raises; holding a record
  with a size of \<open>2^1100\<close> the record derives and \<^verbatim>\<open>fmt_bytes\<close> raises.
\<close>

theorem main_outcomes_witness:
  "fst (load_rows (one_file_env (PDict [])) (inp default_args)) \<noteq> []
   \<and> emap (derive plain_builtins) (fst (load_rows (one_file_env (PDict [])) (inp default_args)))
       = Inr [zero_metric]
   \<and> list_all sizes_in_range [zero_metric]
   \<and> fst (main plain_builtins (one_file_env (PDict [])) default_args) = Exit 0
   \<and> map fst (files (snd (main plain_builtins (one_file_env (PDict [])) default_args)))
       = [''summary.md'', ''summary.csv'']
   \<and> fst (load_rows (one_file_env (PInt 1)) (inp default_args)) = []
   \<and> main plain_builtins (one_file_env (PInt 1)) default_args
       = (Exit 1, \<lparr> out = [],
                    err = [''[warn] out/a.json ignored: top-level JSON is not a list/dict'',
                           ''[err] no JSON files found in out''],
                    files = [] \<rparr>)
   \<and> emap (derive plain_builtins) (fst (load_rows (one_file_env (PList [PInt 1])) (inp default_args)))
       = Inl AttributeError
   \<and> files (snd (main plain_builtins (one_file_env (PList [PInt 1])) default_args)) = []
   \<and> emap (derive plain_builtins)
         (fst (load_rows (one_file_env (PDict huge_fields)) (inp default_args)))
       = Inr [huge_metric]
   \<and> \<not> list_all sizes_in_range [huge_metric]
   \<and> main plain_builtins (one_file_env (PDict huge_fields)) default_args
       = (Uncaught OverflowError, \<lparr> out = [], err = [], files = [] \<rparr>)"
proof -
  let ?E1 = "one_file_env (PDict [])" and ?E2 = "one_file_env (PInt 1)"
    and ?E3 = "one_file_env (PList [PInt 1])" and ?E4 = "one_file_env (PDict huge_fields)"
  have l1: "load_rows ?E1 ''out'' = ([PDict []], [])"
    by (simp add: load_rows_def one_file_env_def)
  have l2: "load_rows ?E2 ''out''
              = ([], [''[warn] out/a.json ignored: top-level JSON is not a list/dict''])"
    by (simp add: load_rows_def one_file_env_def)
  have l3: "load_rows ?E3 ''out'' = ([PInt 1], [])"
    by (simp add: load_rows_def one_file_env_def)
  have l4: "load_rows ?E4 ''out'' = ([PDict huge_fields], [])"
    by (simp add: load_rows_def one_file_env_def)
  have d3: "derive plain_builtins (PInt 1) = Inl AttributeError"
    by (simp add: derive_def)
  have a: "inp default_args = ''out''" "md default_args = ''summary.md''"
    "csv default_args = ''summary.csv''"
    by (simp_all add: default_args_def)
  note z = zero_metric_in_range and h = huge_metric_out_of_range
  from main_outcomes [of ?E1 default_args plain_builtins "[zero_metric]" AttributeError] z
  have r1: "fst (main plain_builtins ?E1 default_args) = Exit 0
      \<and> map fst (files (snd (main plain_builtins ?E1 default_args))) = [''summary.md'', ''summary.csv'']"
    by (simp add: l1 derive_empty a)
  from main_outcomes [of ?E2 default_args plain_builtins "[]" AttributeError]
  have r2: "main plain_builtins ?E2 default_args
       = (Exit 1, \<lparr> out = [],
                    err = [''[warn] out/a.json ignored: top-level JSON is not a list/dict'',
                           ''[err] no JSON files found in out''],
                    files = [] \<rparr>)"
    by (simp add: l2 a)
  from main_outcomes [of ?E3 default_args plain_builtins "[]" AttributeError]
  have r3: "files (snd (main plain_builtins ?E3 default_args)) = []"
    by (simp add: l3 d3 a)
  from main_outcomes [of ?E4 default_args plain_builtins "[huge_metric]" AttributeError] h
  have r4: "main plain_builtins ?E4 default_args
       = (Uncaught OverflowError, \<lparr> out = [], err = [], files = [] \<rparr>)"
    by (simp add: l4 derive_huge_fields a)
  from r1 r2 r3 r4 z h show ?thesis by (simp add: l1 l2 l3 l4 derive_empty derive_huge_fields d3 a)
qed

subsection \<open>The loader\<close>

text \<open>
  Claim C8: the record loader goes through the paths of the JSON files in sorted order
  (a sorted rearrangement of what the directory lists); a file holding a mapping
  contributes that mapping as one record, a file holding a sequence its elements, and
  any other file (another top-level shape, or a failure to read or parse) contributes no
  record and one warning on the error stream; the loader always returns, and the rows
  are the concatenation of the contributions in file order, then in-file order.
\<close>

theorem load_rows_concat:
  "load_rows E d =
     (concat (map (accepted_records E) (sort (glob_json E d))),
      concat (map (skip_warnings E) (sort (glob_json E d))))
   \<and> sorted (sort (glob_json E d))
   \<and> mset (sort (glob_json E d)) = mset (glob_json E d)"
  by (simp add: load_rows_def load_loop_concat)

subsection \<open>Absent fields\<close>

text \<open>
  Claim C9: the empty mapping derives to the record with all six parameters 0, the four
  verdict booleans false, both durations 0 and the six sizes 0; every raw record, typed
  as the data model says with every group and every field optional, derives without
  error; and a raw record stays one when a top-level field or group is removed and when
  an entry is removed from one of its groups, so no absence makes the derivation fail.
\<close>

theorem derive_total_on_raw_records:
  "derive B (PDict []) = Inr zero_metric
   \<and> (raw_record (PDict r) \<longrightarrow>
        (\<exists>m. derive B (PDict r) = Inr m)
        \<and> raw_record (PDict (del_key k r)) \<and> (\<exists>m. derive B (PDict (del_key k r)) = Inr m)
        \<and> raw_record (PDict (del_in g k r)) \<and> (\<exists>m. derive B (PDict (del_in g k r)) = Inr m))"
proof -
  have "(\<exists>m. derive B (PDict r) = Inr m)
        \<and> raw_record (PDict (del_key k r)) \<and> (\<exists>m. derive B (PDict (del_key k r)) = Inr m)
        \<and> raw_record (PDict (del_in g k r)) \<and> (\<exists>m. derive B (PDict (del_in g k r)) = Inr m)"
    if raw: "raw_record (PDict r)"
  proof -
    note d1 = raw_record_del_key [OF raw, of k]
    note d2 = raw_record_del_in [OF raw, of g k]
    from raw_record_derives [OF raw, of B] raw_record_derives [OF d1, of B]
      raw_record_derives [OF d2, of B] d1 d2
    show ?thesis by blast
  qed
  with derive_empty [of B] show ?thesis by blast
qed

text \<open>
  At the example record, without its \<^verbatim>\<open>Opts\<close> group and without the \<^verbatim>\<open>piop/Fpar/core\<close> entry
  of its sizes.
\<close>

theorem derive_total_on_raw_records_witness:
  "raw_record (PDict example_fields)
   \<and> (\<exists>m. derive plain_builtins (PDict example_fields) = Inr m)
   \<and> raw_record (PDict (del_key ''Opts'' example_fields))
   \<and> (\<exists>m. derive plain_builtins (PDict (del_key ''Opts'' example_fields)) = Inr m)
   \<and> raw_record (PDict (del_in ''SizesB'' ''piop/Fpar/core'' example_fields))
   \<and> (\<exists>m. derive plain_builtins (PDict (del_in ''SizesB'' ''piop/Fpar/core'' example_fields)) = Inr m)
   \<and> map_of (del_key ''Opts'' example_fields) ''Opts'' = None
   \<and> map_of (the_group (del_in ''SizesB'' ''piop/Fpar/core'' example_fields) ''SizesB'') ''piop/Fpar/core'' = None"
proof -
  have a: "map_of (del_key ''Opts'' example_fields) ''Opts'' = None"
    by (simp add: del_key_def example_fields_def)
  have b: "map_of (the_group (del_in ''SizesB'' ''piop/Fpar/core'' example_fields) ''SizesB'') ''piop/Fpar/core'' = None"
    by (simp add: del_in_def del_key_def the_group_def example_fields_def)
  from derive_total_on_raw_records
         [of plain_builtins example_fields "''Opts''" "''SizesB''"]
       derive_total_on_raw_records
         [of plain_builtins example_fields "''piop/Fpar/core''" "''SizesB''"]
       raw_record_example a b
  show ?thesis by blast
qed

subsection \<open>Null groups\<close>

text \<open>
  Claim C10: for every raw record whose \<^verbatim>\<open>Verdict\<close>, \<^verbatim>\<open>TimingsUS\<close> or \<^verbatim>\<open>SizesB\<close> field is
  present and holds \<^verbatim>\<open>null\<close>, the metric deriver returns exactly what it returns for the
  record with that field removed; in particular it does not fail when the record without
  the field is a raw record.
\<close>

theorem derive_null_group:
  assumes "k \<in> {''Verdict'', ''TimingsUS'', ''SizesB''}" and "map_of r k = Some PNone"
  shows "derive B (PDict r) = derive B (PDict (del_key k r))
       \<and> (raw_record (PDict (del_key k r)) \<longrightarrow> (\<exists>m. derive B (PDict r) = Inr m))"
proof -
  have ps: "param_spec (del_key k r) name = param_spec r name" if "name \<in> set param_names" for name
  proof -
    from that assms(1) have "name \<noteq> k" by (auto simp: param_names_def)
    moreover from assms(1) have "''Opts'' \<noteq> k" by auto
    ultimately show ?thesis
      by (simp add: param_spec_def top_level_def map_of_del_key split: option.splits pyval.splits)
  qed
  have gr: "py_or (case map_of (del_key k r) g of None \<Rightarrow> PDict [] | Some v \<Rightarrow> v) (PDict [])
           = py_or (case map_of r g of None \<Rightarrow> PDict [] | Some v \<Rightarrow> v) (PDict [])" for g
    using assms(2) by (simp add: map_of_del_key py_or_def)
  have eq: "derive B (PDict (del_key k r)) = derive B (PDict r)"
    by (rule derive_cong) (simp_all add: ps gr param_names_def)
  with raw_record_derives [of "del_key k r" B] show ?thesis by simp
qed


text \<open>At a record with a top-level parameter and \<^verbatim>\<open>SizesB\<close> holding \<^verbatim>\<open>null\<close>.\<close>

theorem derive_null_group_witness:
  "''SizesB'' \<in> {''Verdict'', ''TimingsUS'', ''SizesB''}
   \<and> map_of [(''NCols'', PInt 3), (''SizesB'', PNone)] ''SizesB'' = Some PNone
   \<and> raw_record (PDict (del_key ''SizesB'' [(''NCols'', PInt 3), (''SizesB'', PNone)]))
   \<and> derive plain_builtins (PDict [(''NCols'', PInt 3), (''SizesB'', PNone)])
       = derive plain_builtins (PDict (del_key ''SizesB'' [(''NCols'', PInt 3), (''SizesB'', PNone)]))
   \<and> (\<exists>m. derive plain_builtins (PDict [(''NCols'', PInt 3), (''SizesB'', PNone)]) = Inr m)"
proof -
  have h1: "''SizesB'' \<in> {''Verdict'', ''TimingsUS'', ''SizesB''}" by simp
  have h2: "map_of [(''NCols'', PInt 3), (''SizesB'', PNone)] ''SizesB'' = Some PNone" by simp
  have h3: "raw_record (PDict (del_key ''SizesB'' [(''NCols'', PInt 3), (''SizesB'', PNone)]))"
    by (simp add: del_key_def param_names_def absent_or_def)
  from derive_null_group [OF h1 h2, of plain_builtins] h1 h2 h3 show ?thesis by blast
qed

end
